theory Spec2Isabelle
  imports Complex_Main
begin

section \<open>JavaScript numbers\<close>

text \<open>
  A JavaScript number is a finite value, an infinity or \<open>NaN\<close>. Values that a caller
  chooses freely (the trim points) and values that a division may make special (the scale
  coefficient of the renderer, whose division by zero is an infinity or \<open>NaN\<close>, not an
  exception, where HOL's \<open>x / 0 = 0\<close> would hide it) are \<open>jsnum\<close>. Values that the
  platform keeps finite (a buffer's duration and samples, pixel coordinates) are reals. The
  sign of zero is not modelled; rounding is modelled where the code stores or accumulates
  computed values, through \<open>float_ops\<close> below.
\<close>

datatype jsnum = Num real | PosInf | NegInf | NaN

fun js_gt :: "jsnum \<Rightarrow> jsnum \<Rightarrow> bool" where
  "js_gt (Num a) (Num b) = (a > b)"
| "js_gt NaN _ = False"
| "js_gt _ NaN = False"
| "js_gt PosInf PosInf = False"
| "js_gt PosInf _ = True"
| "js_gt NegInf _ = False"
| "js_gt (Num a) PosInf = False"
| "js_gt (Num a) NegInf = True"

fun js_neg :: "jsnum \<Rightarrow> jsnum" where
  "js_neg (Num a) = Num (- a)"
| "js_neg PosInf = NegInf"
| "js_neg NegInf = PosInf"
| "js_neg NaN = NaN"

fun js_signed_inf :: "real \<Rightarrow> jsnum" where
  "js_signed_inf s = (if s = 0 then NaN else if s > 0 then PosInf else NegInf)"

fun js_mul :: "jsnum \<Rightarrow> jsnum \<Rightarrow> jsnum" where
  "js_mul (Num a) (Num b) = Num (a * b)"
| "js_mul NaN _ = NaN"
| "js_mul _ NaN = NaN"
| "js_mul PosInf (Num b) = js_signed_inf b"
| "js_mul NegInf (Num b) = js_signed_inf (- b)"
| "js_mul (Num a) PosInf = js_signed_inf a"
| "js_mul (Num a) NegInf = js_signed_inf (- a)"
| "js_mul PosInf PosInf = PosInf"
| "js_mul NegInf NegInf = PosInf"
| "js_mul PosInf NegInf = NegInf"
| "js_mul NegInf PosInf = NegInf"

fun js_div :: "jsnum \<Rightarrow> jsnum \<Rightarrow> jsnum" where
  "js_div (Num a) (Num b) = (if b = 0 then js_signed_inf a else Num (a / b))"
| "js_div NaN _ = NaN"
| "js_div _ NaN = NaN"
| "js_div (Num a) PosInf = Num 0"
| "js_div (Num a) NegInf = Num 0"
| "js_div PosInf (Num b) = (if b \<ge> 0 then PosInf else NegInf)"
| "js_div NegInf (Num b) = (if b \<ge> 0 then NegInf else PosInf)"
| "js_div PosInf PosInf = NaN"
| "js_div PosInf NegInf = NaN"
| "js_div NegInf PosInf = NaN"
| "js_div NegInf NegInf = NaN"

fun js_add :: "jsnum \<Rightarrow> jsnum \<Rightarrow> jsnum" where
  "js_add (Num a) (Num b) = Num (a + b)"
| "js_add NaN _ = NaN"
| "js_add _ NaN = NaN"
| "js_add PosInf NegInf = NaN"
| "js_add NegInf PosInf = NaN"
| "js_add PosInf _ = PosInf"
| "js_add NegInf _ = NegInf"
| "js_add (Num a) PosInf = PosInf"
| "js_add (Num a) NegInf = NegInf"

definition js_sub :: "jsnum \<Rightarrow> jsnum \<Rightarrow> jsnum" where
  "js_sub a b = js_add a (js_neg b)"

fun js_round :: "jsnum \<Rightarrow> jsnum" where
  "js_round (Num a) = Num (of_int \<lfloor>a + 1 / 2\<rfloor>)"
| "js_round v = v"

text \<open>
  \<open>Math.max\<close> and \<open>Math.min\<close> of two arguments: \<open>NaN\<close> if either argument is
  \<open>NaN\<close>, otherwise the greater (the smaller) of the two.
\<close>

fun js_max :: "jsnum \<Rightarrow> jsnum \<Rightarrow> jsnum" where
  "js_max NaN _ = NaN"
| "js_max _ NaN = NaN"
| "js_max a b = (if js_gt b a then b else a)"

fun js_min :: "jsnum \<Rightarrow> jsnum \<Rightarrow> jsnum" where
  "js_min NaN _ = NaN"
| "js_min _ NaN = NaN"
| "js_min a b = (if js_gt a b then b else a)"

text \<open>\<open>a <= b\<close>: false when either side is \<open>NaN\<close>.\<close>

definition js_le :: "jsnum \<Rightarrow> jsnum \<Rightarrow> bool" where
  "js_le a b = (a \<noteq> NaN \<and> b \<noteq> NaN \<and> \<not> js_gt a b)"

text \<open>
  Arithmetic on computed finite values rounds: \<open>fadd\<close> and \<open>fdiv\<close> are the addition and
  the division of doubles, \<open>fround\<close> is the rounding of a double to the nearest float32
  that a store into a \<open>Float32Array\<close> performs. They belong to the platform and are
  parameters of the extraction. \<open>exact_ops\<close> are the operations without rounding error;
  the platform's operations agree with them wherever the exact result is representable.
\<close>

record float_ops =
  fadd :: "real \<Rightarrow> real \<Rightarrow> real"
  fdiv :: "real \<Rightarrow> real \<Rightarrow> real"
  fround :: "real \<Rightarrow> real"

definition exact_ops :: float_ops where
  "exact_ops = \<lparr>fadd = (\<lambda>a b. a + b), fdiv = (\<lambda>a b. a / b), fround = (\<lambda>a. a)\<rparr>"

section \<open>Decoded buffers and pads\<close>

text \<open>
  The fields of an \<open>AudioBuffer\<close> that the code reads are \<open>duration\<close>, \<open>length\<close> and
  the per-channel sample arrays (\<open>getChannelData(c)\<close>); \<open>numberOfChannels\<close> is the number
  of those arrays. A pad's trim points are whatever numbers \<open>setTrimPoints\<close> was given,
  \<open>NaN\<close> and the infinities included.
\<close>

record audio_buffer =
  duration :: real
  buf_length :: nat
  channelData :: "real list list"

definition numberOfChannels :: "audio_buffer \<Rightarrow> nat" where
  "numberOfChannels b = length (channelData b)"

record pad =
  index :: nat
  buffer :: "audio_buffer option"
  name :: string
  loaded :: bool
  trimStart :: jsnum
  trimEnd :: jsnum
  gain :: real

datatype error = InvalidPadIndex int | DecodeError | TypeError | IndexSizeError

text \<open>The engine state is the array \<open>this.pads\<close>; \<open>this.maxPads\<close> is the constant 16.\<close>

type_synonym engine = "pad list"

definition maxPads :: int where
  "maxPads = 16"

subsection \<open>Template strings: decimal rendering of a pad number\<close>

definition digit_char :: "nat \<Rightarrow> char" where
  "digit_char d = char_of (48 + d)"

fun string_of_nat :: "nat \<Rightarrow> string" where
  "string_of_nat n =
     (if n < 10 then [digit_char n]
      else string_of_nat (n div 10) @ [digit_char (n mod 10)])"

declare string_of_nat.simps [simp del]

definition default_name :: "nat \<Rightarrow> string" where
  \<comment> \<open>\<open>`Pad ${i + 1}`\<close>\<close>
  "default_name i = ''Pad '' @ string_of_nat (i + 1)"

subsection \<open>initializePads\<close>

definition empty_pad :: "nat \<Rightarrow> pad" where
  "empty_pad i =
     \<lparr>index = i, buffer = None, name = default_name i, loaded = False,
      trimStart = Num 0, trimEnd = Num 1, gain = 1\<rparr>"

definition initializePads :: engine where
  "initializePads = map empty_pad [0..<nat maxPads]"

subsection \<open>loadSound\<close>

text \<open>
  \<open>ctx.decodeAudioData\<close> belongs to the audio context; it is a parameter \<open>decode\<close>
  that either yields a buffer or fails. \<open>name || `Pad ${padIndex + 1}`\<close> takes the default
  for \<open>null\<close> and for the empty string. The result is the updated engine and the pad
  that the method returns. An invalid index and a failed decode throw before any field is
  assigned; the progress callback is only notified and does not touch the pads.
\<close>

definition name_or_default :: "string option \<Rightarrow> nat \<Rightarrow> string" where
  "name_or_default nm i =
     (case nm of None \<Rightarrow> default_name i
      | Some s \<Rightarrow> if s = [] then default_name i else s)"

definition loadSound ::
  "('bytes \<Rightarrow> audio_buffer option) \<Rightarrow> int \<Rightarrow> 'bytes \<Rightarrow> string option \<Rightarrow> engine
     \<Rightarrow> error + (engine \<times> pad)" where
  "loadSound decode padIndex audioData nm pads =
     (if padIndex < 0 \<or> padIndex \<ge> maxPads then Inl (InvalidPadIndex padIndex)
      else case decode audioData of
        None \<Rightarrow> Inl DecodeError
      | Some buf \<Rightarrow>
          let i = nat padIndex;
              p = (pads ! i)\<lparr>buffer := Some buf, name := name_or_default nm i,
                              loaded := True, trimEnd := Num (duration buf)\<rparr>
          in Inr (pads[i := p], p))"

subsection \<open>play and _playBuffer\<close>




subsection \<open>setTrimPoints\<close>

text \<open>
  The JavaScript engine tests only \<open>pad.loaded\<close> and then reads \<open>pad.buffer.duration\<close>:
  on a pad flagged loaded whose buffer is \<open>null\<close> that read raises a TypeError. The
  TypeScript engine also returns early when the buffer is \<open>null\<close>.
\<close>

definition setTrimPoints :: "int \<Rightarrow> jsnum \<Rightarrow> jsnum \<Rightarrow> engine \<Rightarrow> error + engine" where
  "setTrimPoints padIndex startTime endTime pads =
     (if padIndex < 0 \<or> padIndex \<ge> maxPads then Inr pads
      else let i = nat padIndex; p = pads ! i in
        if \<not> loaded p then Inr pads
        else case buffer p of
          None \<Rightarrow> Inl TypeError
        | Some buf \<Rightarrow>
            Inr (pads[i := p\<lparr>trimStart := js_max (Num 0) startTime,
                              trimEnd := js_min (Num (duration buf)) endTime\<rparr>]))"

definition setTrimPoints_ts :: "int \<Rightarrow> jsnum \<Rightarrow> jsnum \<Rightarrow> engine \<Rightarrow> engine" where
  "setTrimPoints_ts padIndex startTime endTime pads =
     (if padIndex < 0 \<or> padIndex \<ge> maxPads then pads
      else let i = nat padIndex; p = pads ! i in
        if \<not> loaded p then pads
        else case buffer p of
          None \<Rightarrow> pads
        | Some buf \<Rightarrow>
            pads[i := p\<lparr>trimStart := js_max (Num 0) startTime,
                        trimEnd := js_min (Num (duration buf)) endTime\<rparr>])"

subsection \<open>getPad, resetPad, clearAll\<close>

definition getPad :: "int \<Rightarrow> engine \<Rightarrow> pad option" where
  "getPad padIndex pads =
     (if padIndex < 0 \<or> padIndex \<ge> maxPads then None else Some (pads ! nat padIndex))"

definition resetPad :: "int \<Rightarrow> engine \<Rightarrow> engine" where
  "resetPad padIndex pads =
     (if padIndex < 0 \<or> padIndex \<ge> maxPads then pads
      else let i = nat padIndex; p = pads ! i in
        if \<not> loaded p then pads
        else case buffer p of
          None \<Rightarrow> pads
        | Some buf \<Rightarrow> pads[i := p\<lparr>trimStart := Num 0, trimEnd := Num (duration buf)\<rparr>])"

definition clearAll :: "engine \<Rightarrow> engine" where
  "clearAll pads =
     map (\<lambda>p. p\<lparr>buffer := None, loaded := False, trimStart := Num 0, trimEnd := Num 1\<rparr>) pads"

subsection \<open>Engine states reachable through the public operations\<close>

text \<open>
  \<open>play\<close> leaves the pads untouched, and a \<open>loadSound\<close> that throws (invalid index,
  decode failure) returns before any assignment, so neither adds a rule.
\<close>

inductive reachable :: "('bytes \<Rightarrow> audio_buffer option) \<Rightarrow> engine \<Rightarrow> bool"
  for decode :: "'bytes \<Rightarrow> audio_buffer option" where
  r_init: "reachable decode initializePads"
| r_load: "reachable decode st \<Longrightarrow> loadSound decode i d nm st = Inr (st', p)
            \<Longrightarrow> reachable decode st'"
| r_trim: "reachable decode st \<Longrightarrow> setTrimPoints i s e st = Inr st' \<Longrightarrow> reachable decode st'"
| r_trim_ts: "reachable decode st \<Longrightarrow> reachable decode (setTrimPoints_ts i s e st)"
| r_reset: "reachable decode st \<Longrightarrow> reachable decode (resetPad i st)"
| r_clear: "reachable decode st \<Longrightarrow> reachable decode (clearAll st)"

text \<open>
  What every reachable pad satisfies: \<open>trimStart\<close> is \<open>NaN\<close> or at least 0, and a loaded
  pad has a buffer and a \<open>trimEnd\<close> that is \<open>NaN\<close> or at most the buffer's duration.
\<close>

definition nan_or_le :: "jsnum \<Rightarrow> jsnum \<Rightarrow> bool" where
  \<comment> \<open>\<open>a\<close> and \<open>b\<close> are in order, or one of them is \<open>NaN\<close>\<close>
  "nan_or_le a b = (a = NaN \<or> b = NaN \<or> js_le a b)"

definition pad_ok :: "pad \<Rightarrow> bool" where
  "pad_ok p =
     (nan_or_le (Num 0) (trimStart p) \<and>
      (if loaded p
       then (case buffer p of
               None \<Rightarrow> False
             | Some buf \<Rightarrow> nan_or_le (trimEnd p) (Num (duration buf)))
       else True))"

definition engine_ok :: "engine \<Rightarrow> bool" where
  "engine_ok st = (length st = 16 \<and> list_all pad_ok st)"

subsection \<open>A concrete session\<close>

definition two_second_buffer :: audio_buffer where
  "two_second_buffer = \<lparr>duration = 2, buf_length = 4, channelData = [[0, 1, 0, -1]]\<rparr>"

definition one_second_buffer :: audio_buffer where
  "one_second_buffer = \<lparr>duration = 1, buf_length = 2, channelData = [[1, 0]]\<rparr>"

definition decode_example :: "bool \<Rightarrow> audio_buffer option" where
  "decode_example long = Some (if long then two_second_buffer else one_second_buffer)"

definition scenario_engine :: engine where
  \<comment> \<open>a fresh engine after \<open>loadSound(0, bytes, "kick")\<close>, decoded to the 2-second buffer\<close>
  "scenario_engine =
     (case loadSound decode_example 0 True (Some ''kick'') initializePads of
        Inr (pads, p) \<Rightarrow> pads
      | Inl e \<Rightarrow> initializePads)"

definition retrimmed_engine :: engine where
  \<comment> \<open>the session after \<open>setTrimPoints(0, 1.5, 2)\<close>\<close>
  "retrimmed_engine = setTrimPoints_ts 0 (Num (3 / 2)) (Num 2) scenario_engine"

definition crossed_engine :: engine where
  \<comment> \<open>the session after \<open>setTrimPoints(0, 1.5, 0.5)\<close>\<close>
  "crossed_engine = setTrimPoints_ts 0 (Num (3 / 2)) (Num (1 / 2)) scenario_engine"

definition nan_engine :: engine where
  \<comment> \<open>the session after \<open>setTrimPoints(0, NaN, NaN)\<close>\<close>
  "nan_engine = setTrimPoints_ts 0 NaN NaN scenario_engine"

definition reloaded_engine :: engine where
  \<comment> \<open>the session after \<open>setTrimPoints(0, 1.5, 2)\<close> and a reload of pad 0 with the 1-second
      sample\<close>
  "reloaded_engine =
     (case loadSound decode_example 0 False None retrimmed_engine of
        Inr (pads, p) \<Rightarrow> pads
      | Inl e \<Rightarrow> retrimmed_engine)"

section \<open>Trim bars\<close>

record point =
  px :: real
  py :: real

record trim_bar =
  bar_x :: real
  color :: string
  selectedColor :: string
  selected :: bool
  dragged :: bool

record trimbars =
  leftTrimBar :: trim_bar
  rightTrimBar :: trim_bar
  canvasWidth :: real
  canvasHeight :: real

definition distance :: "real \<Rightarrow> real \<Rightarrow> real \<Rightarrow> real \<Rightarrow> real" where
  "distance x1 y1 x2 y2 = (let y = x2 - x1; x = y2 - y1 in sqrt (x * x + y * y))"

definition pixelToSeconds :: "real \<Rightarrow> real \<Rightarrow> real \<Rightarrow> real" where
  "pixelToSeconds x bufferDuration width = (x * bufferDuration) / width"

subsection \<open>TrimbarsDrawer.js: 25 pixel radius, exclusive selection, clamp on crossing\<close>

definition highLightTrimBarsWhenClose :: "point \<Rightarrow> trimbars \<Rightarrow> trimbars" where
  "highLightTrimBarsWhenClose mousePos t =
     (let d = distance (px mousePos) (py mousePos) (bar_x (leftTrimBar t)) 18;
          l = (if d < 25 \<and> \<not> selected (rightTrimBar t)
               then (leftTrimBar t)\<lparr>color := selectedColor (leftTrimBar t), selected := True\<rparr>
               else (leftTrimBar t)\<lparr>color := ''#00ff00'', selected := False\<rparr>);
          d' = distance (px mousePos) (py mousePos) (bar_x (rightTrimBar t)) 18;
          r = (if d' < 25 \<and> \<not> selected l
               then (rightTrimBar t)\<lparr>color := selectedColor (rightTrimBar t), selected := True\<rparr>
               else (rightTrimBar t)\<lparr>color := ''#00ff00'', selected := False\<rparr>)
      in t\<lparr>leftTrimBar := l, rightTrimBar := r\<rparr>)"

definition startDrag :: "trimbars \<Rightarrow> trimbars" where
  "startDrag t =
     (let t1 = (if selected (leftTrimBar t)
                then t\<lparr>leftTrimBar := (leftTrimBar t)\<lparr>dragged := True\<rparr>\<rparr> else t)
      in if selected (rightTrimBar t1)
         then t1\<lparr>rightTrimBar := (rightTrimBar t1)\<lparr>dragged := True\<rparr>\<rparr> else t1)"

definition stopDrag :: "trimbars \<Rightarrow> trimbars" where
  "stopDrag t =
     (let t1 =
        (if dragged (leftTrimBar t)
         then let l = (leftTrimBar t)\<lparr>dragged := False, selected := False\<rparr>
              in t\<lparr>leftTrimBar :=
                     (if bar_x l > bar_x (rightTrimBar t)
                      then l\<lparr>bar_x := bar_x (rightTrimBar t)\<rparr> else l)\<rparr>
         else t)
      in if dragged (rightTrimBar t1)
         then let r = (rightTrimBar t1)\<lparr>dragged := False, selected := False\<rparr>
              in t1\<lparr>rightTrimBar :=
                      (if bar_x r < bar_x (leftTrimBar t1)
                       then r\<lparr>bar_x := bar_x (leftTrimBar t1)\<rparr> else r)\<rparr>
         else t1)"

text \<open>The closing \<open>clear()\<close> and \<open>draw()\<close> of \<open>moveTrimBars\<close> only paint; they do not
  change the bars.\<close>

definition moveTrimBars :: "point \<Rightarrow> trimbars \<Rightarrow> trimbars" where
  "moveTrimBars mousePos t =
     (let t0 = highLightTrimBarsWhenClose mousePos t;
          clampedX = max 0 (min (px mousePos) (canvasWidth t0));
          t1 = (if dragged (leftTrimBar t0) \<and> clampedX < bar_x (rightTrimBar t0)
                then t0\<lparr>leftTrimBar := (leftTrimBar t0)\<lparr>bar_x := clampedX\<rparr>\<rparr> else t0)
      in if dragged (rightTrimBar t1) \<and> clampedX > bar_x (leftTrimBar t1)
         then t1\<lparr>rightTrimBar := (rightTrimBar t1)\<lparr>bar_x := clampedX\<rparr>\<rparr> else t1)"

subsection \<open>TrimbarsDrawer (TypeScript): 60 pixel radius, independent selection, swap on crossing\<close>

definition highLightTrimBarsWhenClose_ts :: "point \<Rightarrow> trimbars \<Rightarrow> trimbars" where
  "highLightTrimBarsWhenClose_ts mousePos t =
     (let distanceFromLeft = distance (bar_x (leftTrimBar t)) 0 (px mousePos) (py mousePos);
          distanceFromRight = distance (bar_x (rightTrimBar t)) 0 (px mousePos) (py mousePos);
          l = (leftTrimBar t)\<lparr>selected := distanceFromLeft < 60\<rparr>;
          r = (rightTrimBar t)\<lparr>selected := distanceFromRight < 60\<rparr>
      in t\<lparr>leftTrimBar := l\<lparr>color := (if selected l then selectedColor l else ''#00ff00'')\<rparr>,
           rightTrimBar := r\<lparr>color := (if selected r then selectedColor r else ''#00ff00'')\<rparr>\<rparr>)"

definition moveTrimBars_ts :: "point \<Rightarrow> trimbars \<Rightarrow> trimbars" where
  "moveTrimBars_ts mousePos t =
     (let t0 = highLightTrimBarsWhenClose_ts mousePos t;
          t1 = (if dragged (leftTrimBar t0)
                then t0\<lparr>leftTrimBar := (leftTrimBar t0)\<lparr>bar_x := px mousePos\<rparr>\<rparr> else t0);
          t2 = (if dragged (rightTrimBar t1)
                then t1\<lparr>rightTrimBar := (rightTrimBar t1)\<lparr>bar_x := px mousePos\<rparr>\<rparr> else t1)
      in if bar_x (leftTrimBar t2) > bar_x (rightTrimBar t2)
         then t2\<lparr>leftTrimBar := (leftTrimBar t2)\<lparr>bar_x := bar_x (rightTrimBar t2)\<rparr>,
                 rightTrimBar := (rightTrimBar t2)\<lparr>bar_x := bar_x (leftTrimBar t2)\<rparr>\<rparr>
         else t2)"

definition startDrag_ts :: "trimbars \<Rightarrow> trimbars" where
  "startDrag_ts t =
     (let t1 = (if selected (leftTrimBar t)
                then t\<lparr>leftTrimBar := (leftTrimBar t)\<lparr>dragged := True\<rparr>\<rparr> else t)
      in if selected (rightTrimBar t1)
         then t1\<lparr>rightTrimBar := (rightTrimBar t1)\<lparr>dragged := True\<rparr>\<rparr> else t1)"

definition stopDrag_ts :: "trimbars \<Rightarrow> trimbars" where
  "stopDrag_ts t =
     t\<lparr>leftTrimBar := (leftTrimBar t)\<lparr>dragged := False\<rparr>,
       rightTrimBar := (rightTrimBar t)\<lparr>dragged := False\<rparr>\<rparr>"

subsection \<open>Pointer events\<close>

datatype pointer_event = MouseMove point | MouseDown | MouseUp

fun handle_event :: "trimbars \<Rightarrow> pointer_event \<Rightarrow> trimbars" where
  "handle_event t (MouseMove m) = moveTrimBars m t"
| "handle_event t MouseDown = startDrag t"
| "handle_event t MouseUp = stopDrag t"

fun handle_event_ts :: "trimbars \<Rightarrow> pointer_event \<Rightarrow> trimbars" where
  "handle_event_ts t (MouseMove m) = moveTrimBars_ts m t"
| "handle_event_ts t MouseDown = startDrag_ts t"
| "handle_event_ts t MouseUp = stopDrag_ts t"

definition new_trim_bar :: "real \<Rightarrow> trim_bar" where
  "new_trim_bar x0 =
     \<lparr>bar_x = x0, color = ''#00ff00'', selectedColor = ''#ff6b6b'',
      selected = False, dragged = False\<rparr>"

definition new_trimbars :: "real \<Rightarrow> real \<Rightarrow> real \<Rightarrow> real \<Rightarrow> trimbars" where
  \<comment> \<open>the constructor, on a canvas of the given width and height\<close>
  "new_trimbars w h leftTrimBarX rightTrimBarX =
     \<lparr>leftTrimBar = new_trim_bar leftTrimBarX, rightTrimBar = new_trim_bar rightTrimBarX,
      canvasWidth = w, canvasHeight = h\<rparr>"

definition close_bars :: trimbars where
  \<comment> \<open>an 800 by 100 overlay with the bars 10 pixels apart\<close>
  "close_bars = new_trimbars 800 100 100 110"

definition ordered :: "trimbars \<Rightarrow> bool" where
  "ordered t = (bar_x (leftTrimBar t) \<le> bar_x (rightTrimBar t))"

section \<open>Peak extraction\<close>

subsection \<open>WaveformDrawer.js: chunked extraction\<close>

text \<open>
  The innermost loop \<open>for (j = start; j < end; j += this.sampleStep)\<close>. A read past the
  end of the channel yields \<open>undefined\<close>, whose absolute value is \<open>NaN\<close>; the comparison with
  \<open>channelPeak\<close> is then false and the peak is kept. The loop has no bound of its own, so it
  is a partial function: \<open>None\<close> means that it never returns.
\<close>

partial_function (option) sampleLoop ::
  "real list \<Rightarrow> nat \<Rightarrow> nat \<Rightarrow> nat \<Rightarrow> real \<Rightarrow> real option" where
  "sampleLoop chan j endIdx sampleStep channelPeak =
     (if j < endIdx
      then sampleLoop chan (j + sampleStep) endIdx sampleStep
             (if j < length chan \<and> \<bar>chan ! j\<bar> > channelPeak then \<bar>chan ! j\<bar> else channelPeak)
      else Some channelPeak)"

declare sampleLoop.simps [code]

text \<open>
  The loop over the channels accumulates \<open>peak += channelPeak / channels\<close> in doubles;
  the samples themselves, their absolute values and the comparisons are exact. The block
  starts at \<open>~~(i * sampleSize)\<close>, which is \<open>i * sampleSize\<close> as long as the product stays
  below \<open>2^31\<close>, as it does for every buffer that fits in memory.
\<close>

fun channelLoop ::
  "float_ops \<Rightarrow> audio_buffer \<Rightarrow> nat \<Rightarrow> nat \<Rightarrow> nat \<Rightarrow> nat list \<Rightarrow> real \<Rightarrow> real option" where
  "channelLoop ops buf i sampleSize sampleStep [] peak = Some peak"
| "channelLoop ops buf i sampleSize sampleStep (c # cs) peak =
     (let chan = channelData buf ! c;
          start = i * sampleSize;
          endIdx = start + sampleSize
      in case sampleLoop chan start endIdx sampleStep 0 of
           None \<Rightarrow> None
         | Some channelPeak \<Rightarrow>
             channelLoop ops buf i sampleSize sampleStep cs
               (fadd ops peak (fdiv ops channelPeak (real (numberOfChannels buf)))))"

text \<open>
  \<open>this.peaks\<close> is a \<open>Float32Array\<close>: the store \<open>this.peaks[i] = peak\<close> rounds the
  double to float32.
\<close>

fun pixelLoop ::
  "float_ops \<Rightarrow> audio_buffer \<Rightarrow> nat \<Rightarrow> nat \<Rightarrow> nat list \<Rightarrow> real list \<Rightarrow> real list option" where
  "pixelLoop ops buf sampleSize sampleStep [] peaks = Some peaks"
| "pixelLoop ops buf sampleSize sampleStep (i # is) peaks =
     (case channelLoop ops buf i sampleSize sampleStep [0..<numberOfChannels buf] 0 of
        None \<Rightarrow> None
      | Some peak \<Rightarrow> pixelLoop ops buf sampleSize sampleStep is (peaks[i := fround ops peak]))"

text \<open>
  \<open>processChunk\<close> handles 300 pixel columns and reschedules itself through
  \<open>requestAnimationFrame\<close> until \<open>currentPixel\<close> reaches the display width; the rescheduling
  is the recursive call.
\<close>

function processChunk ::
  "float_ops \<Rightarrow> audio_buffer \<Rightarrow> nat \<Rightarrow> nat \<Rightarrow> nat \<Rightarrow> nat \<Rightarrow> real list
     \<Rightarrow> real list option" where
  "processChunk ops buf displayWidth sampleSize sampleStep currentPixel peaks =
     (let endPixel = min (currentPixel + 300) displayWidth in
      case pixelLoop ops buf sampleSize sampleStep [currentPixel..<endPixel] peaks of
        None \<Rightarrow> None
      | Some peaks' \<Rightarrow>
          if endPixel < displayWidth
          then processChunk ops buf displayWidth sampleSize sampleStep endPixel peaks'
          else Some peaks')"
  by pat_completeness auto
termination
  by (relation "measure (\<lambda>(ops, buf, displayWidth, sampleSize, sampleStep, currentPixel, peaks).
                   displayWidth - currentPixel)") auto

declare processChunk.simps [simp del]

text \<open>
  \<open>sampleStep0\<close> is the stride given to \<open>init\<close> (\<open>None\<close> when the argument is left out);
  \<open>this.sampleStep || ~~(sampleSize / 10)\<close> replaces a missing or zero stride by a tenth of
  the block size, rounded down. With a display width of 0 no column is processed and the
  block size is not used.
\<close>

definition blockSampleSize :: "audio_buffer \<Rightarrow> nat \<Rightarrow> nat" where
  "blockSampleSize buf displayWidth = nat \<lceil>real (buf_length buf) / real displayWidth\<rceil>"

definition effectiveStep :: "nat option \<Rightarrow> nat \<Rightarrow> nat" where
  "effectiveStep sampleStep0 sampleSize =
     (case sampleStep0 of
        None \<Rightarrow> sampleSize div 10
      | Some s \<Rightarrow> if s = 0 then sampleSize div 10 else s)"

definition getPeaksChunked ::
  "float_ops \<Rightarrow> audio_buffer \<Rightarrow> nat \<Rightarrow> nat option \<Rightarrow> real list option" where
  "getPeaksChunked ops buf displayWidth sampleStep0 =
     (let sampleSize = blockSampleSize buf displayWidth;
          sampleStep = effectiveStep sampleStep0 sampleSize
      in processChunk ops buf displayWidth sampleSize sampleStep 0 (replicate displayWidth 0))"

subsection \<open>WaveformDrawer.ts: getPeaksAsync\<close>

text \<open>
  The TypeScript extractor reads channel 0 only, cuts it into blocks of
  \<open>floor(length / width)\<close> samples, adds up each block's absolute values in a double and
  stores the sum divided by the block size into a \<open>Float32Array\<close>; with an empty block the
  quotient is \<open>0 / 0\<close>, which is \<open>NaN\<close>. Without a buffer it returns and leaves
  \<open>peaks\<close> unset (\<open>Inr None\<close>); \<open>getChannelData(0)\<close> on a buffer without channels throws.
\<close>

definition blockMean :: "float_ops \<Rightarrow> real list \<Rightarrow> nat \<Rightarrow> nat \<Rightarrow> jsnum" where
  "blockMean ops rawData blockSize i =
     (let sum = foldl (\<lambda>sum j. fadd ops sum \<bar>rawData ! (i * blockSize + j)\<bar>) 0 [0..<blockSize]
      in if blockSize = 0 then NaN
         else Num (fround ops (fdiv ops sum (real blockSize))))"

definition getPeaksAsync_ts ::
  "float_ops \<Rightarrow> audio_buffer option \<Rightarrow> nat \<Rightarrow> error + jsnum list option" where
  "getPeaksAsync_ts ops decodedAudioBuffer displayWidth =
     (case decodedAudioBuffer of
        None \<Rightarrow> Inr None
      | Some buf \<Rightarrow>
          (case channelData buf of
             [] \<Rightarrow> Inl IndexSizeError
           | rawData # _ \<Rightarrow>
               let samples = displayWidth;
                   blockSize = length rawData div samples
               in Inr (Some (map (blockMean ops rawData blockSize) [0..<samples]))))"

subsection \<open>What the specification asks of an envelope entry\<close>

text \<open>
  The positions of block \<open>i\<close> that a stride visits and that exist in the channel, the
  maximum absolute sample over them (0 when there is none), and the arithmetic mean of
  these per-channel maxima. \<open>float_mean\<close> is the same mean formed the way the code forms
  it: each maximum divided by the number of channels, the quotients added up channel by
  channel, the total rounded to float32.
\<close>

definition block_positions :: "nat \<Rightarrow> nat \<Rightarrow> nat \<Rightarrow> nat \<Rightarrow> nat set" where
  "block_positions n start endIdx step =
     {j \<in> {start..<endIdx}. j < n \<and> step dvd (j - start)}"

definition channel_block_peak :: "real list \<Rightarrow> nat \<Rightarrow> nat \<Rightarrow> nat \<Rightarrow> real" where
  "channel_block_peak chan start endIdx step =
     Max (insert 0 ((\<lambda>j. \<bar>chan ! j\<bar>) ` block_positions (length chan) start endIdx step))"

definition mean_channel_peak :: "audio_buffer \<Rightarrow> nat \<Rightarrow> nat \<Rightarrow> nat \<Rightarrow> real" where
  "mean_channel_peak buf sampleSize step i =
     (\<Sum>chan\<leftarrow>channelData buf.
        channel_block_peak chan (i * sampleSize) (i * sampleSize + sampleSize) step)
     / real (numberOfChannels buf)"

definition float_mean :: "float_ops \<Rightarrow> audio_buffer \<Rightarrow> nat \<Rightarrow> nat \<Rightarrow> nat \<Rightarrow> real" where
  "float_mean ops buf sampleSize step i =
     fround ops
       (foldl (\<lambda>peak chan.
                 fadd ops peak
                   (fdiv ops
                      (channel_block_peak chan (i * sampleSize) (i * sampleSize + sampleSize) step)
                      (real (numberOfChannels buf))))
          0 (channelData buf))"

definition stereo_buffer :: audio_buffer where
  "stereo_buffer =
     \<lparr>duration = 4 / 44100, buf_length = 4,
      channelData = [[1, - 1 / 2, 0, 0], [0, 0, 1 / 2, 0]]\<rparr>"

definition store_means ::
  "float_ops \<Rightarrow> audio_buffer \<Rightarrow> nat \<Rightarrow> nat \<Rightarrow> nat list \<Rightarrow> real list \<Rightarrow> real list" where
  \<comment> \<open>the entry of each of the given columns written into the list, in turn\<close>
  "store_means ops buf sz s cols ps = fold (\<lambda>i ps. ps[i := float_mean ops buf sz s i]) cols ps"

section \<open>Waveform rendering\<close>

datatype canvas_cmd =
    ClearRect real real real real
  | Save
  | Restore
  | Translate real real
  | FillStyle string
  | StrokeStyle string
  | BeginPath
  | MoveTo jsnum jsnum
  | LineTo jsnum jsnum
  | Stroke
  | Fill

record waveform_drawer =
  peaks :: "jsnum list"
  displayWidth :: nat
  wave_color :: string
  canvas_width :: real
  canvas_height :: real

text \<open>The drawer's own \<open>max\<close>: it starts from \<open>-Infinity\<close> and keeps what compares greater.\<close>

definition max_values :: "jsnum list \<Rightarrow> jsnum" where
  "max_values values = foldl (\<lambda>m v. if js_gt v m then v else m) NegInf values"

definition peak_at :: "jsnum list \<Rightarrow> nat \<Rightarrow> jsnum" where
  \<comment> \<open>\<open>this.peaks[i]\<close>; \<open>undefined\<close> beyond the array, which arithmetic turns into \<open>NaN\<close>\<close>
  "peak_at ps i = (if i < length ps then ps ! i else NaN)"

definition coef_denominator :: "waveform_drawer \<Rightarrow> jsnum" where
  "coef_denominator d = js_mul (Num 2) (max_values (peaks d))"

definition coef :: "waveform_drawer \<Rightarrow> real \<Rightarrow> jsnum" where
  "coef d height = js_div (Num height) (coef_denominator d)"

definition vertex_offset :: "waveform_drawer \<Rightarrow> real \<Rightarrow> nat \<Rightarrow> jsnum" where
  \<comment> \<open>\<open>h = Math.round(this.peaks[i] * coef)\<close>\<close>
  "vertex_offset d height i = js_round (js_mul (peak_at (peaks d) i) (coef d height))"

definition drawWaveform :: "waveform_drawer \<Rightarrow> real \<Rightarrow> real \<Rightarrow> canvas_cmd list" where
  "drawWaveform d startY height =
     (let width = displayWidth d;
          halfH = Num (height / 2)
      in [ClearRect 0 0 (canvas_width d) (canvas_height d), Save, Translate 0 startY,
          FillStyle (wave_color d), StrokeStyle (wave_color d),
          BeginPath, MoveTo (Num 0) halfH, LineTo (Num (real width)) halfH, Stroke,
          BeginPath, MoveTo (Num 0) halfH]
         @ map (\<lambda>i. LineTo (Num (real i)) (js_add halfH (vertex_offset d height i))) [0..<width]
         @ [LineTo (Num (real width)) halfH, MoveTo (Num 0) halfH]
         @ map (\<lambda>i. LineTo (Num (real i)) (js_sub halfH (vertex_offset d height i))) [0..<width]
         @ [LineTo (Num (real width)) halfH, Fill, Restore])"

definition one_sample_buffer :: audio_buffer where
  "one_sample_buffer = \<lparr>duration = 1 / 44100, buf_length = 1, channelData = [[1 / 2]]\<rparr>"

definition silent_drawer :: waveform_drawer where
  "silent_drawer =
     \<lparr>peaks = [Num 0, Num 0, Num 0], displayWidth = 3, wave_color = ''#667eea'',
      canvas_width = 3, canvas_height = 100\<rparr>"

section \<open>Properties of the pad store\<close>

subsection \<open>Auxiliary facts\<close>

lemma js_max_Num: "js_max (Num a) (Num b) = Num (max a b)"
  by (simp add: max_def)

lemma js_min_Num: "js_min (Num a) (Num b) = Num (min a b)"
  by (simp add: min_def)

lemma nan_or_le_js_max: "nan_or_le (Num 0) (js_max (Num 0) s)"
  by (cases s) (simp_all add: nan_or_le_def js_le_def)

lemma nan_or_le_js_min: "nan_or_le (js_min (Num d) e) (Num d)"
  by (cases e) (simp_all add: nan_or_le_def js_le_def)

lemma length_initializePads: "length initializePads = 16"
  by (simp add: initializePads_def maxPads_def)

lemma nth_initializePads: "i < 16 \<Longrightarrow> initializePads ! i = empty_pad i"
  by (simp add: initializePads_def maxPads_def)

lemma loadSound_fresh:
  "loadSound decode_example 0 True (Some ''kick'') initializePads =
     Inr (initializePads[0 := (empty_pad 0)\<lparr>buffer := Some two_second_buffer, name := ''kick'',
                                                 loaded := True, trimEnd := Num 2\<rparr>],
          (empty_pad 0)\<lparr>buffer := Some two_second_buffer, name := ''kick'',
                         loaded := True, trimEnd := Num 2\<rparr>)"
  by (simp add: loadSound_def decode_example_def maxPads_def name_or_default_def Let_def
      nth_initializePads two_second_buffer_def)

lemma scenario_engine_eq:
  "scenario_engine =
     initializePads[0 := (empty_pad 0)\<lparr>buffer := Some two_second_buffer, name := ''kick'',
                                        loaded := True, trimEnd := Num 2\<rparr>]"
  by (simp add: scenario_engine_def loadSound_fresh)

lemma length_scenario_engine: "length scenario_engine = 16"
  by (simp add: scenario_engine_eq length_initializePads)

lemma scenario_engine_0:
  "scenario_engine ! 0 =
     \<lparr>index = 0, buffer = Some two_second_buffer, name = ''kick'', loaded = True,
      trimStart = Num 0, trimEnd = Num 2, gain = 1\<rparr>"
  by (simp add: scenario_engine_eq length_initializePads empty_pad_def)

lemma loadSound_scenario:
  "loadSound decode_example 0 True (Some ''kick'') initializePads
     = Inr (scenario_engine, scenario_engine ! 0)"
  by (simp add: loadSound_fresh scenario_engine_eq length_initializePads)

lemma scenario_reachable: "reachable decode_example scenario_engine"
  using r_init loadSound_scenario by (rule r_load)

lemma engine_ok_init: "engine_ok initializePads"
  by (simp add: engine_ok_def initializePads_def maxPads_def list_all_iff pad_ok_def
      empty_pad_def nan_or_le_def js_le_def)

lemma list_all_update: "list_all P xs \<Longrightarrow> P x \<Longrightarrow> list_all P (xs[i := x])"
  by (auto simp add: list_all_iff dest: set_update_subset_insert[THEN subsetD])

lemma engine_ok_update: "engine_ok st \<Longrightarrow> pad_ok p \<Longrightarrow> engine_ok (st[i := p])"
  by (simp add: engine_ok_def list_all_update)

lemma engine_ok_nth: "engine_ok st \<Longrightarrow> i < 16 \<Longrightarrow> pad_ok (st ! i)"
  by (simp add: engine_ok_def list_all_length)

lemma engine_ok_loadSound:
  assumes "engine_ok st" and "loadSound decode i d nm st = Inr (st', p)"
  shows "engine_ok st'"
proof -
  from assms(2) have valid: "0 \<le> i" "i < 16"
    by (auto simp add: loadSound_def maxPads_def split: if_splits)
  with assms(2) obtain buf where
    st': "st' = st[nat i := (st ! nat i)\<lparr>buffer := Some buf, name := name_or_default nm (nat i),
                              loaded := True, trimEnd := Num (duration buf)\<rparr>]"
    by (auto simp add: loadSound_def maxPads_def Let_def split: option.splits)
  from valid assms(1) have "pad_ok (st ! nat i)"
    by (simp add: engine_ok_nth)
  then have "pad_ok ((st ! nat i)\<lparr>buffer := Some buf, name := name_or_default nm (nat i),
                              loaded := True, trimEnd := Num (duration buf)\<rparr>)"
    by (simp add: pad_ok_def nan_or_le_def js_le_def)
  with assms(1) show ?thesis
    unfolding st' by (rule engine_ok_update)
qed

lemma engine_ok_setTrimPoints_ts:
  assumes "engine_ok st"
  shows "engine_ok (setTrimPoints_ts i s e st)"
proof (cases "0 \<le> i \<and> i < 16 \<and> loaded (st ! nat i)")
  case False
  with assms show ?thesis
    by (auto simp add: setTrimPoints_ts_def maxPads_def Let_def)
next
  case True
  show ?thesis
  proof (cases "buffer (st ! nat i)")
    case None
    with assms show ?thesis
      by (simp add: setTrimPoints_ts_def Let_def)
  next
    case (Some buf)
    have "pad_ok ((st ! nat i)\<lparr>trimStart := js_max (Num 0) s,
                                trimEnd := js_min (Num (duration buf)) e\<rparr>)"
      using True Some by (simp add: pad_ok_def nan_or_le_js_max nan_or_le_js_min)
    with assms
    have "engine_ok (st[nat i := (st ! nat i)\<lparr>trimStart := js_max (Num 0) s,
                                               trimEnd := js_min (Num (duration buf)) e\<rparr>])"
      by (rule engine_ok_update)
    with True Some show ?thesis
      by (simp add: setTrimPoints_ts_def maxPads_def Let_def)
  qed
qed

lemma setTrimPoints_agree:
  "setTrimPoints i s e st = Inr st' \<Longrightarrow> st' = setTrimPoints_ts i s e st"
  by (auto simp add: setTrimPoints_def setTrimPoints_ts_def Let_def
      split: if_splits option.splits)

lemma engine_ok_resetPad:
  assumes "engine_ok st"
  shows "engine_ok (resetPad i st)"
proof (cases "0 \<le> i \<and> i < 16 \<and> loaded (st ! nat i)")
  case False
  with assms show ?thesis
    by (auto simp add: resetPad_def maxPads_def Let_def)
next
  case True
  show ?thesis
  proof (cases "buffer (st ! nat i)")
    case None
    with assms show ?thesis
      by (simp add: resetPad_def Let_def)
  next
    case (Some buf)
    have "pad_ok ((st ! nat i)\<lparr>trimStart := Num 0, trimEnd := Num (duration buf)\<rparr>)"
      using True Some by (simp add: pad_ok_def nan_or_le_def js_le_def)
    with assms
    have "engine_ok (st[nat i := (st ! nat i)\<lparr>trimStart := Num 0,
                                               trimEnd := Num (duration buf)\<rparr>])"
      by (rule engine_ok_update)
    with True Some show ?thesis
      by (simp add: resetPad_def maxPads_def Let_def)
  qed
qed

lemma engine_ok_clearAll: "engine_ok st \<Longrightarrow> engine_ok (clearAll st)"
  by (simp add: engine_ok_def clearAll_def list_all_iff pad_ok_def nan_or_le_def js_le_def)

lemma reachable_engine_ok: "reachable decode st \<Longrightarrow> engine_ok st"
proof (induction rule: reachable.induct)
  case r_init
  show ?case by (rule engine_ok_init)
next
  case (r_load st i d nm st' p)
  then show ?case by (blast intro: engine_ok_loadSound)
next
  case (r_trim st i s e st')
  then show ?case by (metis setTrimPoints_agree engine_ok_setTrimPoints_ts)
next
  case (r_trim_ts st i s e)
  then show ?case by (simp add: engine_ok_setTrimPoints_ts)
next
  case (r_reset st i)
  then show ?case by (simp add: engine_ok_resetPad)
next
  case (r_clear st)
  then show ?case by (simp add: engine_ok_clearAll)
qed

text \<open>In a reachable state the JavaScript \<open>setTrimPoints\<close> never meets a loaded pad
  without a buffer, so its TypeError branch is not taken.\<close>

lemma reachable_setTrimPoints_no_error:
  assumes "reachable decode st"
  shows "setTrimPoints i s e st = Inr (setTrimPoints_ts i s e st)"
proof (cases "0 \<le> i \<and> i < 16 \<and> loaded (st ! nat i)")
  case False
  then show ?thesis
    by (auto simp add: setTrimPoints_def setTrimPoints_ts_def maxPads_def Let_def)
next
  case True
  from assms have ok: "engine_ok st" by (rule reachable_engine_ok)
  from True have "nat i < 16" by linarith
  with ok have "pad_ok (st ! nat i)" by (rule engine_ok_nth)
  with True obtain buf where "buffer (st ! nat i) = Some buf"
    by (auto simp add: pad_ok_def split: option.splits)
  with True show ?thesis
    by (simp add: setTrimPoints_def setTrimPoints_ts_def maxPads_def Let_def)
qed

lemma length_retrimmed_engine: "length retrimmed_engine = 16"
  by (simp add: retrimmed_engine_def setTrimPoints_ts_def maxPads_def Let_def
      scenario_engine_0 length_scenario_engine)

lemma retrimmed_engine_0:
  "retrimmed_engine ! 0 =
     \<lparr>index = 0, buffer = Some two_second_buffer, name = ''kick'', loaded = True,
      trimStart = Num (3 / 2), trimEnd = Num 2, gain = 1\<rparr>"
  by (simp add: retrimmed_engine_def setTrimPoints_ts_def maxPads_def Let_def scenario_engine_0
      length_scenario_engine two_second_buffer_def)

lemma retrimmed_reachable: "reachable decode_example retrimmed_engine"
  unfolding retrimmed_engine_def using scenario_reachable by (rule r_trim_ts)

subsection \<open>The trim window of a loaded pad\<close>

lemma crossed_engine_0:
  "crossed_engine ! 0 =
     \<lparr>index = 0, buffer = Some two_second_buffer, name = ''kick'', loaded = True,
      trimStart = Num (3 / 2), trimEnd = Num (1 / 2), gain = 1\<rparr>"
  by (simp add: crossed_engine_def setTrimPoints_ts_def maxPads_def Let_def scenario_engine_0
      length_scenario_engine two_second_buffer_def)

lemma crossed_reachable: "reachable decode_example crossed_engine"
  unfolding crossed_engine_def using scenario_reachable by (rule r_trim_ts)

lemma nan_engine_0:
  "nan_engine ! 0 =
     \<lparr>index = 0, buffer = Some two_second_buffer, name = ''kick'', loaded = True,
      trimStart = NaN, trimEnd = NaN, gain = 1\<rparr>"
  by (simp add: nan_engine_def setTrimPoints_ts_def maxPads_def Let_def scenario_engine_0
      length_scenario_engine two_second_buffer_def)

lemma nan_reachable: "reachable decode_example nan_engine"
  unfolding nan_engine_def using scenario_reachable by (rule r_trim_ts)

lemma loadSound_reload:
  "loadSound decode_example 0 False None retrimmed_engine =
     Inr (retrimmed_engine[0 := (retrimmed_engine ! 0)\<lparr>buffer := Some one_second_buffer,
                                   name := name_or_default None 0, loaded := True,
                                   trimEnd := Num 1\<rparr>],
          (retrimmed_engine ! 0)\<lparr>buffer := Some one_second_buffer,
                                   name := name_or_default None 0, loaded := True,
                                   trimEnd := Num 1\<rparr>)"
  by (simp add: loadSound_def decode_example_def maxPads_def Let_def one_second_buffer_def)

lemma reloaded_engine_0:
  "buffer (reloaded_engine ! 0) = Some one_second_buffer \<and>
   loaded (reloaded_engine ! 0) \<and>
   trimStart (reloaded_engine ! 0) = Num (3 / 2) \<and>
   trimEnd (reloaded_engine ! 0) = Num 1"
  by (simp add: reloaded_engine_def loadSound_reload length_retrimmed_engine retrimmed_engine_0)

lemma reloaded_reachable: "reachable decode_example reloaded_engine"
proof -
  have "loadSound decode_example 0 False None retrimmed_engine =
          Inr (reloaded_engine, (retrimmed_engine ! 0)\<lparr>buffer := Some one_second_buffer,
                                   name := name_or_default None 0, loaded := True,
                                   trimEnd := Num 1\<rparr>)"
    by (simp add: reloaded_engine_def loadSound_reload)
  with retrimmed_reachable show ?thesis by (rule r_load)
qed

text \<open>
  C1, as the code has it. In every state that the public operations (\<open>loadSound\<close>,
  \<open>setTrimPoints\<close> with any numbers, \<open>resetPad\<close>, \<open>play\<close>, \<open>clearAll\<close>) can reach, a loaded
  pad has a buffer, its \<open>trimStart\<close> is \<open>NaN\<close> or at least 0, and its \<open>trimEnd\<close> is \<open>NaN\<close>
  or at most \<open>buffer.duration\<close>. Neither the ordering \<open>trimStart \<le> trimEnd\<close> nor the
  absence of \<open>NaN\<close> is part of the invariant.
\<close>

theorem trim_bounds_invariant:
  assumes "reachable decode st" and "i < 16" and "loaded (st ! i)"
  shows "\<exists>buf. buffer (st ! i) = Some buf \<and>
           (trimStart (st ! i) = NaN \<or> js_le (Num 0) (trimStart (st ! i))) \<and>
           (trimEnd (st ! i) = NaN \<or> js_le (trimEnd (st ! i)) (Num (duration buf)))"
proof -
  from assms(1) have "engine_ok st" by (rule reachable_engine_ok)
  from this assms(2) have "pad_ok (st ! i)" by (rule engine_ok_nth)
  with assms(3) show ?thesis
    by (auto simp add: pad_ok_def nan_or_le_def split: option.splits)
qed

theorem trim_bounds_invariant_witness:
  "reachable decode_example crossed_engine \<and> (0::nat) < 16 \<and> loaded (crossed_engine ! 0) \<and>
   (\<exists>buf. buffer (crossed_engine ! 0) = Some buf \<and>
      (trimStart (crossed_engine ! 0) = NaN \<or> js_le (Num 0) (trimStart (crossed_engine ! 0))) \<and>
      (trimEnd (crossed_engine ! 0) = NaN
         \<or> js_le (trimEnd (crossed_engine ! 0)) (Num (duration buf)))) \<and>
   trimStart (crossed_engine ! 0) = Num (3 / 2) \<and>
   trimEnd (crossed_engine ! 0) = Num (1 / 2)"
proof -
  have l: "loaded (crossed_engine ! 0)"
    by (simp add: crossed_engine_0)
  have n: "(0::nat) < 16" by simp
  have v: "trimStart (crossed_engine ! 0) = Num (3 / 2)" "trimEnd (crossed_engine ! 0) = Num (1 / 2)"
    by (simp_all add: crossed_engine_0)
  from trim_bounds_invariant[OF crossed_reachable n l] crossed_reachable n l v
  show ?thesis by blast
qed

text \<open>
  Three reachable states with pad 0 loaded in which the chain
  \<open>0 \<le> trimStart \<le> trimEnd \<le> duration\<close> is broken. After \<open>setTrimPoints(0, 1.5, 0.5)\<close> on
  the 2-second pad the window is reversed. After \<open>setTrimPoints(0, 1.5, 2)\<close> and a reload of
  the pad with a 1-second sample, \<open>trimStart\<close> is still 1.5 and \<open>trimEnd\<close> is 1. After
  \<open>setTrimPoints(0, NaN, NaN)\<close> both trim points are \<open>NaN\<close> and no comparison holds.
\<close>

theorem trim_order_counterexample:
  "reachable decode_example crossed_engine \<and>
   setTrimPoints 0 (Num (3 / 2)) (Num (1 / 2)) scenario_engine = Inr crossed_engine \<and>
   loaded (crossed_engine ! 0) \<and>
   trimStart (crossed_engine ! 0) = Num (3 / 2) \<and>
   trimEnd (crossed_engine ! 0) = Num (1 / 2) \<and>
   \<not> js_le (trimStart (crossed_engine ! 0)) (trimEnd (crossed_engine ! 0)) \<and>
   reachable decode_example reloaded_engine \<and>
   loaded (reloaded_engine ! 0) \<and>
   trimStart (reloaded_engine ! 0) = Num (3 / 2) \<and>
   trimEnd (reloaded_engine ! 0) = Num 1 \<and>
   \<not> js_le (trimStart (reloaded_engine ! 0)) (trimEnd (reloaded_engine ! 0)) \<and>
   reachable decode_example nan_engine \<and>
   setTrimPoints 0 NaN NaN scenario_engine = Inr nan_engine \<and>
   loaded (nan_engine ! 0) \<and>
   trimStart (nan_engine ! 0) = NaN \<and>
   trimEnd (nan_engine ! 0) = NaN \<and>
   \<not> js_le (Num 0) (trimStart (nan_engine ! 0)) \<and>
   \<not> js_le (trimEnd (nan_engine ! 0)) (Num (duration two_second_buffer))"
proof -
  have c: "setTrimPoints 0 (Num (3 / 2)) (Num (1 / 2)) scenario_engine = Inr crossed_engine"
    unfolding crossed_engine_def
    using scenario_reachable by (rule reachable_setTrimPoints_no_error)
  have n: "setTrimPoints 0 NaN NaN scenario_engine = Inr nan_engine"
    unfolding nan_engine_def
    using scenario_reachable by (rule reachable_setTrimPoints_no_error)
  from c n crossed_reachable reloaded_reachable nan_reachable reloaded_engine_0
  show ?thesis
    by (simp add: crossed_engine_0 nan_engine_0 js_le_def)
qed

subsection \<open>setTrimPoints\<close>

text \<open>
  C2. On a valid index whose pad is loaded, \<open>setTrimPoints(i, s, e)\<close> of either engine
  replaces pad \<open>i\<close> by the same pad with \<open>trimStart = Math.max(0, s)\<close> and
  \<open>trimEnd = Math.min(buffer.duration, e)\<close>, in that order whatever the order of \<open>s\<close> and
  \<open>e\<close>, and \<open>getPad(i)\<close> then reads these values; on an invalid index or an unloaded pad
  the store is returned as it was. On finite numbers \<open>Math.max\<close> and \<open>Math.min\<close> are the
  maximum and the minimum.
\<close>

theorem setTrimPoints_exact:
  assumes "length pads = 16"
  shows
    "(0 \<le> i \<and> i < 16 \<and> loaded (pads ! nat i) \<and> buffer (pads ! nat i) = Some buf \<longrightarrow>
        setTrimPoints i s e pads =
          Inr (pads[nat i := (pads ! nat i)\<lparr>trimStart := js_max (Num 0) s,
                                              trimEnd := js_min (Num (duration buf)) e\<rparr>]) \<and>
        setTrimPoints_ts i s e pads =
          pads[nat i := (pads ! nat i)\<lparr>trimStart := js_max (Num 0) s,
                                         trimEnd := js_min (Num (duration buf)) e\<rparr>] \<and>
        (\<exists>p. getPad i (setTrimPoints_ts i s e pads) = Some p \<and>
             trimStart p = js_max (Num 0) s \<and> trimEnd p = js_min (Num (duration buf)) e)) \<and>
     (i < 0 \<or> 16 \<le> i \<or> \<not> loaded (pads ! nat i) \<longrightarrow>
        setTrimPoints i s e pads = Inr pads \<and> setTrimPoints_ts i s e pads = pads) \<and>
     js_max (Num 0) (Num a) = Num (max 0 a) \<and>
     js_min (Num d) (Num b) = Num (min d b)"
proof (intro conjI impI)
  assume a: "0 \<le> i \<and> i < 16 \<and> loaded (pads ! nat i) \<and> buffer (pads ! nat i) = Some buf"
  then show "setTrimPoints i s e pads =
          Inr (pads[nat i := (pads ! nat i)\<lparr>trimStart := js_max (Num 0) s,
                                              trimEnd := js_min (Num (duration buf)) e\<rparr>])"
    by (simp add: setTrimPoints_def maxPads_def Let_def)
  from a show ts: "setTrimPoints_ts i s e pads =
          pads[nat i := (pads ! nat i)\<lparr>trimStart := js_max (Num 0) s,
                                         trimEnd := js_min (Num (duration buf)) e\<rparr>]"
    by (simp add: setTrimPoints_ts_def maxPads_def Let_def)
  from a have "nat i < length pads" using assms by linarith
  with a show "\<exists>p. getPad i (setTrimPoints_ts i s e pads) = Some p \<and>
             trimStart p = js_max (Num 0) s \<and> trimEnd p = js_min (Num (duration buf)) e"
    unfolding ts by (simp add: getPad_def maxPads_def)
next
  assume "i < 0 \<or> 16 \<le> i \<or> \<not> loaded (pads ! nat i)"
  then show "setTrimPoints i s e pads = Inr pads"
    by (auto simp add: setTrimPoints_def maxPads_def Let_def)
next
  assume "i < 0 \<or> 16 \<le> i \<or> \<not> loaded (pads ! nat i)"
  then show "setTrimPoints_ts i s e pads = pads"
    by (auto simp add: setTrimPoints_ts_def maxPads_def Let_def)
next
  show "js_max (Num 0) (Num a) = Num (max 0 a)" by (rule js_max_Num)
next
  show "js_min (Num d) (Num b) = Num (min d b)" by (rule js_min_Num)
qed

theorem setTrimPoints_exact_witness:
  "length scenario_engine = 16 \<and>
   (0::int) \<le> 0 \<and> (0::int) < 16 \<and> loaded (scenario_engine ! nat 0) \<and>
   buffer (scenario_engine ! nat 0) = Some two_second_buffer \<and>
   setTrimPoints 0 (Num (3 / 2)) (Num (1 / 2)) scenario_engine =
     Inr (scenario_engine[nat 0 := (scenario_engine ! nat 0)
            \<lparr>trimStart := js_max (Num 0) (Num (3 / 2)),
             trimEnd := js_min (Num (duration two_second_buffer)) (Num (1 / 2))\<rparr>]) \<and>
   (\<exists>p. getPad 0 (setTrimPoints_ts 0 (Num (3 / 2)) (Num (1 / 2)) scenario_engine) = Some p \<and>
        trimStart p = js_max (Num 0) (Num (3 / 2)) \<and>
        trimEnd p = js_min (Num (duration two_second_buffer)) (Num (1 / 2))) \<and>
   js_max (Num 0) (Num (3 / 2)) = Num (max 0 (3 / 2)) \<and>
   js_min (Num (duration two_second_buffer)) (Num (1 / 2))
     = Num (min (duration two_second_buffer) (1 / 2)) \<and>
   (16::int) \<le> 16 \<and>
   setTrimPoints 16 (Num 0) (Num 1) scenario_engine = Inr scenario_engine \<and>
   setTrimPoints_ts 16 (Num 0) (Num 1) scenario_engine = scenario_engine"
proof -
  have h: "(0::int) \<le> 0 \<and> (0::int) < 16 \<and> loaded (scenario_engine ! nat 0) \<and>
           buffer (scenario_engine ! nat 0) = Some two_second_buffer"
    by (simp add: scenario_engine_0)
  have g: "(16::int) < 0 \<or> (16::int) \<le> 16 \<or> \<not> loaded (scenario_engine ! nat 16)"
    by simp
  from setTrimPoints_exact[OF length_scenario_engine,
      of 0 two_second_buffer "Num (3 / 2)" "Num (1 / 2)" "3 / 2" "duration two_second_buffer" "1 / 2"] h
    setTrimPoints_exact[OF length_scenario_engine, of 16 two_second_buffer "Num 0" "Num 1"] g
    length_scenario_engine
  show ?thesis by blast
qed

subsection \<open>play\<close>





subsection \<open>clearAll\<close>

text \<open>
  C9, as the code has it. After \<open>clearAll()\<close> every pad has no buffer, \<open>loaded = false\<close>,
  \<open>trimStart = 0\<close> and \<open>trimEnd = 1\<close>; its name, gain and index are those it had before the
  call.
\<close>

theorem clearAll_fields:
  assumes "i < length pads"
  shows "clearAll pads ! i =
           (pads ! i)\<lparr>buffer := None, loaded := False, trimStart := Num 0, trimEnd := Num 1\<rparr> \<and>
         name (clearAll pads ! i) = name (pads ! i) \<and>
         gain (clearAll pads ! i) = gain (pads ! i) \<and>
         index (clearAll pads ! i) = index (pads ! i) \<and>
         length (clearAll pads) = length pads"
  using assms by (simp add: clearAll_def)

theorem clearAll_fields_witness:
  "(0::nat) < length scenario_engine \<and>
   clearAll scenario_engine ! 0 =
     (scenario_engine ! 0)\<lparr>buffer := None, loaded := False, trimStart := Num 0,
                             trimEnd := Num 1\<rparr> \<and>
   name (clearAll scenario_engine ! 0) = name (scenario_engine ! 0) \<and>
   gain (clearAll scenario_engine ! 0) = gain (scenario_engine ! 0) \<and>
   index (clearAll scenario_engine ! 0) = index (scenario_engine ! 0) \<and>
   length (clearAll scenario_engine) = length scenario_engine"
proof -
  have h: "(0::nat) < length scenario_engine"
    by (simp add: length_scenario_engine)
  from clearAll_fields[OF h] h show ?thesis by blast
qed

text \<open>
  Pad 0 of the session was loaded under the name \<open>kick\<close>; after \<open>clearAll()\<close> it still
  carries that name, not the placeholder \<open>Pad 1\<close> of an empty pad.
\<close>

theorem clearAll_name_counterexample:
  "reachable decode_example (clearAll scenario_engine) \<and>
   name (clearAll scenario_engine ! 0) = ''kick'' \<and>
   name (empty_pad 0) = ''Pad 1'' \<and>
   clearAll scenario_engine ! 0 \<noteq> empty_pad 0"
proof -
  have r: "reachable decode_example (clearAll scenario_engine)"
    using scenario_reachable by (rule r_clear)
  have k: "name (clearAll scenario_engine ! 0) = ''kick''"
    by (simp add: clearAll_def length_scenario_engine scenario_engine_0)
  have "default_name 0 = ''Pad 1''"
    by code_simp
  then have e: "name (empty_pad 0) = ''Pad 1''"
    by (simp add: empty_pad_def)
  from k e have "clearAll scenario_engine ! 0 \<noteq> empty_pad 0"
    by auto
  with r k e show ?thesis by blast
qed

subsection \<open>loadSound\<close>

text \<open>
  C10. A successful \<open>loadSound(i, bytes, name)\<close> returns pad \<open>i\<close> with its buffer, name,
  \<open>loaded\<close> and \<open>trimEnd\<close> written; \<open>trimStart\<close>, \<open>gain\<close> and \<open>index\<close> of that pad are those
  from before the load, whatever the new duration, and every other pad is unchanged.
\<close>

theorem loadSound_frame:
  assumes "length pads = 16" and "0 \<le> i" and "i < 16" and "decode d = Some buf"
  shows "\<exists>pads' p. loadSound decode i d nm pads = Inr (pads', p) \<and>
           pads' ! nat i = p \<and>
           p = (pads ! nat i)\<lparr>buffer := Some buf, name := name_or_default nm (nat i),
                               loaded := True, trimEnd := Num (duration buf)\<rparr> \<and>
           trimStart p = trimStart (pads ! nat i) \<and>
           gain p = gain (pads ! nat i) \<and>
           index p = index (pads ! nat i) \<and>
           length pads' = 16 \<and>
           (\<forall>j<16. j \<noteq> nat i \<longrightarrow> pads' ! j = pads ! j)"
proof -
  let ?p = "(pads ! nat i)\<lparr>buffer := Some buf, name := name_or_default nm (nat i),
                               loaded := True, trimEnd := Num (duration buf)\<rparr>"
  from assms have "loadSound decode i d nm pads = Inr (pads[nat i := ?p], ?p)"
    by (simp add: loadSound_def maxPads_def Let_def)
  moreover from assms have "nat i < length pads" by linarith
  then have "pads[nat i := ?p] ! nat i = ?p" by simp
  moreover have "\<forall>j<16. j \<noteq> nat i \<longrightarrow> pads[nat i := ?p] ! j = pads ! j" by simp
  moreover have "length (pads[nat i := ?p]) = 16" using assms(1) by simp
  ultimately show ?thesis by simp
qed

text \<open>Reloading pad 0 with the 1-second sample keeps \<open>trimStart = 1.5\<close>.\<close>

theorem loadSound_frame_witness:
  "length retrimmed_engine = 16 \<and> (0::int) \<le> 0 \<and> (0::int) < 16 \<and>
   decode_example False = Some one_second_buffer \<and>
   (\<exists>pads' p. loadSound decode_example 0 False None retrimmed_engine = Inr (pads', p) \<and>
      pads' ! nat 0 = p \<and>
      p = (retrimmed_engine ! nat 0)\<lparr>buffer := Some one_second_buffer,
             name := name_or_default None (nat 0), loaded := True,
             trimEnd := Num (duration one_second_buffer)\<rparr> \<and>
      trimStart p = trimStart (retrimmed_engine ! nat 0) \<and>
      gain p = gain (retrimmed_engine ! nat 0) \<and>
      index p = index (retrimmed_engine ! nat 0) \<and>
      length pads' = 16 \<and>
      (\<forall>j<16. j \<noteq> nat 0 \<longrightarrow> pads' ! j = retrimmed_engine ! j)) \<and>
   trimStart (retrimmed_engine ! nat 0) = Num (3 / 2) \<and>
   duration one_second_buffer = 1"
proof -
  have d: "decode_example False = Some one_second_buffer"
    by (simp add: decode_example_def)
  have z: "(0::int) \<le> 0" and s: "(0::int) < 16" by simp_all
  have t: "trimStart (retrimmed_engine ! nat 0) = Num (3 / 2)"
    by (simp add: retrimmed_engine_0)
  have o: "duration one_second_buffer = 1"
    by (simp add: one_second_buffer_def)
  from loadSound_frame[where pads = retrimmed_engine and i = 0 and decode = decode_example
        and d = False and buf = one_second_buffer and nm = None,
        OF length_retrimmed_engine z s d]
    length_retrimmed_engine z s d t o
  show ?thesis by blast
qed

section \<open>Properties of the trim bars\<close>

subsection \<open>Positions are only changed by moves and releases\<close>

lemma highLight_frame:
  "bar_x (leftTrimBar (highLightTrimBarsWhenClose m t)) = bar_x (leftTrimBar t)"
  "bar_x (rightTrimBar (highLightTrimBarsWhenClose m t)) = bar_x (rightTrimBar t)"
  "dragged (leftTrimBar (highLightTrimBarsWhenClose m t)) = dragged (leftTrimBar t)"
  "dragged (rightTrimBar (highLightTrimBarsWhenClose m t)) = dragged (rightTrimBar t)"
  "canvasWidth (highLightTrimBarsWhenClose m t) = canvasWidth t"
  by (simp_all add: highLightTrimBarsWhenClose_def Let_def)

lemma highLight_ts_frame:
  "bar_x (leftTrimBar (highLightTrimBarsWhenClose_ts m t)) = bar_x (leftTrimBar t)"
  "bar_x (rightTrimBar (highLightTrimBarsWhenClose_ts m t)) = bar_x (rightTrimBar t)"
  "dragged (leftTrimBar (highLightTrimBarsWhenClose_ts m t)) = dragged (leftTrimBar t)"
  "dragged (rightTrimBar (highLightTrimBarsWhenClose_ts m t)) = dragged (rightTrimBar t)"
  by (simp_all add: highLightTrimBarsWhenClose_ts_def Let_def)

lemma moveTrimBars_ordered:
  assumes "ordered t"
  shows "ordered (moveTrimBars m t)"
proof -
  let ?t0 = "highLightTrimBarsWhenClose m t"
  let ?c = "max 0 (min (px m) (canvasWidth ?t0))"
  from assms have o: "bar_x (leftTrimBar ?t0) \<le> bar_x (rightTrimBar ?t0)"
    by (simp add: ordered_def highLight_frame)
  show ?thesis
  proof (cases "dragged (leftTrimBar ?t0) \<and> ?c < bar_x (rightTrimBar ?t0)")
    case True
    then show ?thesis
      by (simp add: moveTrimBars_def Let_def ordered_def)
  next
    case False
    with o show ?thesis
      by (auto simp add: moveTrimBars_def Let_def ordered_def)
  qed
qed

lemma startDrag_ordered: "ordered t \<Longrightarrow> ordered (startDrag t)"
  by (simp add: startDrag_def Let_def ordered_def)

lemma stopDrag_ordered: "ordered t \<Longrightarrow> ordered (stopDrag t)"
  by (simp add: stopDrag_def Let_def ordered_def)

lemma handle_event_ordered: "ordered t \<Longrightarrow> ordered (handle_event t ev)"
  by (cases ev) (simp_all add: moveTrimBars_ordered startDrag_ordered stopDrag_ordered)

lemma events_ordered: "ordered t \<Longrightarrow> ordered (foldl handle_event t evs)"
  by (induction evs arbitrary: t) (simp_all add: handle_event_ordered)

lemma moveTrimBars_ts_ordered: "ordered (moveTrimBars_ts m t)"
  by (simp add: moveTrimBars_ts_def Let_def ordered_def)

lemma startDrag_ts_ordered: "ordered t \<Longrightarrow> ordered (startDrag_ts t)"
  by (simp add: startDrag_ts_def Let_def ordered_def)

lemma stopDrag_ts_ordered: "ordered t \<Longrightarrow> ordered (stopDrag_ts t)"
  by (simp add: stopDrag_ts_def ordered_def)

lemma handle_event_ts_ordered: "ordered t \<Longrightarrow> ordered (handle_event_ts t ev)"
  by (cases ev) (simp_all add: moveTrimBars_ts_ordered startDrag_ts_ordered stopDrag_ts_ordered)

lemma events_ts_ordered: "ordered t \<Longrightarrow> ordered (foldl handle_event_ts t evs)"
  by (induction evs arbitrary: t) (simp_all add: handle_event_ts_ordered)

text \<open>
  C7. From bars with \<open>left.x \<le> right.x\<close>, any sequence of pointer events (each move is a
  \<open>moveTrimBars\<close> call, each press a \<open>startDrag\<close>, each release a \<open>stopDrag\<close>) followed by
  a release leaves \<open>left.x \<le> right.x\<close>, under the clamping controller and under the
  swapping one.
\<close>

theorem trim_bars_stay_ordered:
  assumes "bar_x (leftTrimBar t) \<le> bar_x (rightTrimBar t)"
  shows "bar_x (leftTrimBar (stopDrag (foldl handle_event t evs)))
           \<le> bar_x (rightTrimBar (stopDrag (foldl handle_event t evs))) \<and>
         bar_x (leftTrimBar (stopDrag_ts (foldl handle_event_ts t evs)))
           \<le> bar_x (rightTrimBar (stopDrag_ts (foldl handle_event_ts t evs)))"
proof -
  from assms have o: "ordered t" by (simp add: ordered_def)
  then have "ordered (stopDrag (foldl handle_event t evs))"
    by (intro stopDrag_ordered events_ordered)
  moreover from o have "ordered (stopDrag_ts (foldl handle_event_ts t evs))"
    by (intro stopDrag_ts_ordered events_ts_ordered)
  ultimately show ?thesis by (simp add: ordered_def)
qed

text \<open>The left bar is grabbed and dragged to pixel 500, beyond the right bar at 110.\<close>

theorem trim_bars_stay_ordered_witness:
  "bar_x (leftTrimBar close_bars) \<le> bar_x (rightTrimBar close_bars) \<and>
   bar_x (leftTrimBar (stopDrag (foldl handle_event close_bars
       [MouseMove \<lparr>px = 100, py = 18\<rparr>, MouseDown, MouseMove \<lparr>px = 500, py = 18\<rparr>])))
     \<le> bar_x (rightTrimBar (stopDrag (foldl handle_event close_bars
       [MouseMove \<lparr>px = 100, py = 18\<rparr>, MouseDown, MouseMove \<lparr>px = 500, py = 18\<rparr>]))) \<and>
   bar_x (leftTrimBar (stopDrag_ts (foldl handle_event_ts close_bars
       [MouseMove \<lparr>px = 100, py = 18\<rparr>, MouseDown, MouseMove \<lparr>px = 500, py = 18\<rparr>])))
     \<le> bar_x (rightTrimBar (stopDrag_ts (foldl handle_event_ts close_bars
       [MouseMove \<lparr>px = 100, py = 18\<rparr>, MouseDown, MouseMove \<lparr>px = 500, py = 18\<rparr>])))"
proof -
  have h: "bar_x (leftTrimBar close_bars) \<le> bar_x (rightTrimBar close_bars)"
    by (simp add: close_bars_def new_trimbars_def new_trim_bar_def)
  from trim_bars_stay_ordered[OF h] h show ?thesis by blast
qed

subsection \<open>Hit test\<close>

lemma distance_horizontal: "distance x1 y x2 y = \<bar>x2 - x1\<bar>"
  by (simp add: distance_def Let_def)

text \<open>
  C8, as the code has it. After a hit test of the JavaScript controller the two bars are
  never both selected: the left bar is selected when the pointer is within 25 pixels of its
  handle and the right bar was not selected before the call, and the right bar when the
  pointer is within 25 pixels of its handle and the left bar has not just been selected. So
  with both handles in reach the right bar wins if it was selected before and the left bar
  otherwise, whichever is nearer. The TypeScript controller selects each bar on its own,
  whenever the pointer is within 60 pixels of the bar's top.
\<close>

theorem hit_test_selection:
  "\<not> (selected (leftTrimBar (highLightTrimBarsWhenClose m t)) \<and>
      selected (rightTrimBar (highLightTrimBarsWhenClose m t))) \<and>
   selected (leftTrimBar (highLightTrimBarsWhenClose m t)) =
     (distance (px m) (py m) (bar_x (leftTrimBar t)) 18 < 25 \<and> \<not> selected (rightTrimBar t)) \<and>
   selected (rightTrimBar (highLightTrimBarsWhenClose m t)) =
     (distance (px m) (py m) (bar_x (rightTrimBar t)) 18 < 25 \<and>
      \<not> (distance (px m) (py m) (bar_x (leftTrimBar t)) 18 < 25 \<and> \<not> selected (rightTrimBar t))) \<and>
   selected (leftTrimBar (highLightTrimBarsWhenClose_ts m t)) =
     (distance (bar_x (leftTrimBar t)) 0 (px m) (py m) < 60) \<and>
   selected (rightTrimBar (highLightTrimBarsWhenClose_ts m t)) =
     (distance (bar_x (rightTrimBar t)) 0 (px m) (py m) < 60)"
proof -
  have l: "selected (leftTrimBar (highLightTrimBarsWhenClose m t)) =
     (distance (px m) (py m) (bar_x (leftTrimBar t)) 18 < 25 \<and> \<not> selected (rightTrimBar t))"
    by (simp add: highLightTrimBarsWhenClose_def Let_def)
  have r: "selected (rightTrimBar (highLightTrimBarsWhenClose m t)) =
     (distance (px m) (py m) (bar_x (rightTrimBar t)) 18 < 25 \<and>
      \<not> (distance (px m) (py m) (bar_x (leftTrimBar t)) 18 < 25 \<and> \<not> selected (rightTrimBar t)))"
    by (simp add: highLightTrimBarsWhenClose_def Let_def)
  have ts: "selected (leftTrimBar (highLightTrimBarsWhenClose_ts m t)) =
     (distance (bar_x (leftTrimBar t)) 0 (px m) (py m) < 60)"
    "selected (rightTrimBar (highLightTrimBarsWhenClose_ts m t)) =
     (distance (bar_x (rightTrimBar t)) 0 (px m) (py m) < 60)"
    by (simp_all add: highLightTrimBarsWhenClose_ts_def Let_def)
  from l r have "\<not> (selected (leftTrimBar (highLightTrimBarsWhenClose m t)) \<and>
      selected (rightTrimBar (highLightTrimBarsWhenClose m t)))"
    by blast
  with l r ts show ?thesis by blast
qed

text \<open>
  Bars at 100 and 110, nothing selected. With the pointer on the right handle, at (110, 18),
  both handles are within 25 pixels and the right one is nearer, yet the JavaScript hit test
  selects the left bar. With the pointer at (105, 0) the TypeScript hit test selects both
  bars.
\<close>

theorem hit_test_counterexample:
  "distance 110 18 (bar_x (leftTrimBar close_bars)) 18 < 25 \<and>
   distance 110 18 (bar_x (rightTrimBar close_bars)) 18 < 25 \<and>
   distance 110 18 (bar_x (rightTrimBar close_bars)) 18
     < distance 110 18 (bar_x (leftTrimBar close_bars)) 18 \<and>
   selected (leftTrimBar (highLightTrimBarsWhenClose \<lparr>px = 110, py = 18\<rparr> close_bars)) \<and>
   \<not> selected (rightTrimBar (highLightTrimBarsWhenClose \<lparr>px = 110, py = 18\<rparr> close_bars)) \<and>
   selected (leftTrimBar (highLightTrimBarsWhenClose_ts \<lparr>px = 105, py = 0\<rparr> close_bars)) \<and>
   selected (rightTrimBar (highLightTrimBarsWhenClose_ts \<lparr>px = 105, py = 0\<rparr> close_bars))"
  by (simp add: close_bars_def new_trimbars_def new_trim_bar_def distance_horizontal
      highLightTrimBarsWhenClose_def highLightTrimBarsWhenClose_ts_def Let_def)

section \<open>Properties of peak extraction and rendering\<close>

subsection \<open>A stride of zero\<close>

lemma sampleLoop_returns_only_if_progress:
  assumes "sampleLoop chan j e s pk = Some r"
  shows "\<not> (s = 0 \<and> j < e)"
proof (rule sampleLoop.raw_induct
    [where P = "\<lambda>chan j e s pk r. \<not> (s = 0 \<and> j < e)", OF _ assms])
  fix f chan j e s pk r
  assume IH: "\<And>chan j e s pk r. f chan j e s pk = Some r \<Longrightarrow> \<not> (s = 0 \<and> j < e)"
    and step: "(if j < e
      then f chan (j + s) e s
             (if j < length chan \<and> \<bar>chan ! j\<bar> > pk then \<bar>chan ! j\<bar> else pk)
      else Some pk) = Some (r::real)"
  show "\<not> (s = 0 \<and> j < e)"
  proof
    assume stuck: "s = 0 \<and> j < e"
    with step have "f chan j e 0
             (if j < length chan \<and> \<bar>chan ! j\<bar> > pk then \<bar>chan ! j\<bar> else pk) = Some r"
      by simp
    from IH[OF this] stuck show False by simp
  qed
qed

lemma sampleLoop_stuck: "j < e \<Longrightarrow> sampleLoop chan j e 0 pk = None"
  using sampleLoop_returns_only_if_progress[of chan j e 0 pk]
  by (cases "sampleLoop chan j e 0 pk") auto

lemma channelLoop_stuck:
  "0 < sampleSize \<Longrightarrow> cs \<noteq> [] \<Longrightarrow> channelLoop ops buf i sampleSize 0 cs peak = None"
  by (cases cs) (simp_all add: Let_def sampleLoop_stuck)

lemma pixelLoop_stuck:
  "0 < sampleSize \<Longrightarrow> 0 < numberOfChannels buf \<Longrightarrow> is \<noteq> []
     \<Longrightarrow> pixelLoop ops buf sampleSize 0 is ps = None"
  by (cases "is") (simp_all add: channelLoop_stuck)

text \<open>
  Whenever the stride comes out as 0 on a buffer with a channel, a positive width and a
  non-empty block, the extraction never returns.
\<close>

lemma getPeaksChunked_diverges:
  assumes "0 < w" and "0 < numberOfChannels buf"
    and "0 < blockSampleSize buf w"
    and "effectiveStep sampleStep0 (blockSampleSize buf w) = 0"
  shows "getPeaksChunked ops buf w sampleStep0 = None"
proof -
  from assms(1) have "[0..<min 300 w] \<noteq> []" by simp
  with assms(2,3)
  have "pixelLoop ops buf (blockSampleSize buf w) 0 [0..<min 300 w]
          (replicate w 0) = None"
    by (intro pixelLoop_stuck)
  with assms(4) show ?thesis
    by (simp add: getPeaksChunked_def Let_def processChunk.simps)
qed

text \<open>
  C5 fails on the JavaScript extractor. For a buffer of one sample and a display width of
  1, with no stride passed to \<open>init\<close>, the block size is 1, the derived stride
  \<open>~~(1 / 10)\<close> is 0, and the sampling loop \<open>for (j = start; j < end; j += 0)\<close> never
  ends: the extraction does not return an envelope.
\<close>

theorem getPeaksChunked_one_sample_never_returns:
  "blockSampleSize one_sample_buffer 1 = 1 \<and>
   effectiveStep None (blockSampleSize one_sample_buffer 1) = 0 \<and>
   getPeaksChunked ops one_sample_buffer 1 None = None"
proof -
  have b: "blockSampleSize one_sample_buffer 1 = 1"
    by (simp add: blockSampleSize_def one_sample_buffer_def)
  then have e: "effectiveStep None (blockSampleSize one_sample_buffer 1) = 0"
    by (simp add: effectiveStep_def)
  have "0 < numberOfChannels one_sample_buffer"
    by (simp add: numberOfChannels_def one_sample_buffer_def)
  with b e have "getPeaksChunked ops one_sample_buffer 1 None = None"
    by (intro getPeaksChunked_diverges) simp_all
  with b e show ?thesis by simp
qed

text \<open>The TypeScript extractor always returns, with one entry per pixel column.\<close>

lemma getPeaksAsync_ts_length:
  assumes "channelData buf \<noteq> []"
  shows "\<exists>env. getPeaksAsync_ts ops (Some buf) w = Inr (Some env)
               \<and> length env = w"
  using assms by (cases "channelData buf") (simp_all add: getPeaksAsync_ts_def Let_def)

lemma getPeaksAsync_ts_in_range:
  assumes "i < w" and "j < length rawData div w"
  shows "i * (length rawData div w) + j < length rawData"
proof -
  let ?b = "length rawData div w"
  from assms have "i * ?b + j < (i + 1) * ?b" by simp
  also from assms(1) have "(i + 1) * ?b \<le> w * ?b"
    by (intro mult_right_mono) simp_all
  also have "w * ?b \<le> length rawData" by simp
  finally show ?thesis .
qed

subsection \<open>Rendering a silent envelope\<close>

lemma max_values_zeros_aux:
  "list_all (\<lambda>p. p = Num 0) ps \<Longrightarrow>
     foldl (\<lambda>m v. if js_gt v m then v else m) (Num 0) ps = Num 0"
  by (induction ps) simp_all

lemma max_values_zeros:
  assumes "ps \<noteq> []" and "list_all (\<lambda>p. p = Num 0) ps"
  shows "max_values ps = Num 0"
  using assms by (cases ps) (simp_all add: max_values_def max_values_zeros_aux)

lemma js_mul_zero_coef:
  "c = PosInf \<or> c = NegInf \<or> c = NaN \<Longrightarrow> js_mul (Num 0) c = NaN"
  by auto

lemma silent_vertex_offset:
  assumes "peaks d \<noteq> []" and "list_all (\<lambda>p. p = Num 0) (peaks d)"
  shows "vertex_offset d height i = NaN"
proof -
  from assms have "coef_denominator d = Num 0"
    by (simp add: coef_denominator_def max_values_zeros)
  then have c: "coef d height = js_signed_inf height"
    by (simp add: coef_def)
  then have special: "coef d height = PosInf \<or> coef d height = NegInf \<or> coef d height = NaN"
    by simp
  show ?thesis
  proof (cases "i < length (peaks d)")
    case True
    with assms(2) have "peak_at (peaks d) i = Num 0"
      by (simp add: peak_at_def list_all_length)
    with js_mul_zero_coef[OF special] show ?thesis
      by (simp add: vertex_offset_def)
  next
    case False
    then show ?thesis
      by (simp add: vertex_offset_def peak_at_def)
  qed
qed

text \<open>
  C4, as the code has it. For a non-empty envelope of zeros the scale coefficient is
  computed without a guard: its denominator \<open>2 * max(peaks)\<close> is 0 and the quotient
  \<open>height / 0\<close> is \<open>Infinity\<close>, \<open>-Infinity\<close> or \<open>NaN\<close> by the sign of the height (JavaScript
  raises nothing). Every vertex offset \<open>Math.round(peaks[i] * coef)\<close> is \<open>NaN\<close>, and so is
  the vertical coordinate of every vertex of the upper and the lower polyline; the centre
  line from \<open>(0, height / 2)\<close> to \<open>(width, height / 2)\<close> is the only segment with finite
  coordinates.
\<close>

theorem silent_waveform:
  assumes "peaks d \<noteq> []" and "list_all (\<lambda>p. p = Num 0) (peaks d)"
  shows "coef_denominator d = Num 0 \<and>
         coef d height = (if height = 0 then NaN else if height > 0 then PosInf else NegInf) \<and>
         vertex_offset d height i = NaN \<and>
         drawWaveform d startY height =
           [ClearRect 0 0 (canvas_width d) (canvas_height d), Save, Translate 0 startY,
            FillStyle (wave_color d), StrokeStyle (wave_color d),
            BeginPath, MoveTo (Num 0) (Num (height / 2)),
            LineTo (Num (real (displayWidth d))) (Num (height / 2)), Stroke,
            BeginPath, MoveTo (Num 0) (Num (height / 2))]
           @ map (\<lambda>i. LineTo (Num (real i)) NaN) [0..<displayWidth d]
           @ [LineTo (Num (real (displayWidth d))) (Num (height / 2)),
              MoveTo (Num 0) (Num (height / 2))]
           @ map (\<lambda>i. LineTo (Num (real i)) NaN) [0..<displayWidth d]
           @ [LineTo (Num (real (displayWidth d))) (Num (height / 2)), Fill, Restore]"
proof -
  from assms have den: "coef_denominator d = Num 0"
    by (simp add: coef_denominator_def max_values_zeros)
  then have c: "coef d height = (if height = 0 then NaN else if height > 0 then PosInf else NegInf)"
    by (simp add: coef_def)
  have off: "\<And>k. vertex_offset d height k = NaN"
    using assms by (rule silent_vertex_offset)
  have "drawWaveform d startY height =
           [ClearRect 0 0 (canvas_width d) (canvas_height d), Save, Translate 0 startY,
            FillStyle (wave_color d), StrokeStyle (wave_color d),
            BeginPath, MoveTo (Num 0) (Num (height / 2)),
            LineTo (Num (real (displayWidth d))) (Num (height / 2)), Stroke,
            BeginPath, MoveTo (Num 0) (Num (height / 2))]
           @ map (\<lambda>i. LineTo (Num (real i)) NaN) [0..<displayWidth d]
           @ [LineTo (Num (real (displayWidth d))) (Num (height / 2)),
              MoveTo (Num 0) (Num (height / 2))]
           @ map (\<lambda>i. LineTo (Num (real i)) NaN) [0..<displayWidth d]
           @ [LineTo (Num (real (displayWidth d))) (Num (height / 2)), Fill, Restore]"
    by (simp add: drawWaveform_def Let_def off js_sub_def)
  with den c off show ?thesis by simp
qed

lemma silent_drawer_zeros:
  "peaks silent_drawer \<noteq> []" "list_all (\<lambda>p. p = Num 0) (peaks silent_drawer)"
  by (simp_all add: silent_drawer_def)

theorem silent_waveform_witness:
  "peaks silent_drawer \<noteq> [] \<and> list_all (\<lambda>p. p = Num 0) (peaks silent_drawer) \<and>
   coef_denominator silent_drawer = Num 0 \<and>
   coef silent_drawer 100 = PosInf \<and>
   vertex_offset silent_drawer 100 1 = NaN \<and>
   drawWaveform silent_drawer 0 100 =
     [ClearRect 0 0 3 100, Save, Translate 0 0, FillStyle ''#667eea'', StrokeStyle ''#667eea'',
      BeginPath, MoveTo (Num 0) (Num 50), LineTo (Num 3) (Num 50), Stroke,
      BeginPath, MoveTo (Num 0) (Num 50),
      LineTo (Num 0) NaN, LineTo (Num 1) NaN, LineTo (Num 2) NaN,
      LineTo (Num 3) (Num 50), MoveTo (Num 0) (Num 50),
      LineTo (Num 0) NaN, LineTo (Num 1) NaN, LineTo (Num 2) NaN,
      LineTo (Num 3) (Num 50), Fill, Restore]"
proof -
  have u: "[0..<displayWidth silent_drawer] = [0, 1, 2]"
    by (simp add: silent_drawer_def upt_rec)
  from silent_waveform[OF silent_drawer_zeros, of 100 1 0] silent_drawer_zeros u
  show ?thesis
    by (simp add: silent_drawer_def)
qed

text \<open>
  On three zero peaks drawn 100 pixels high the denominator is 0, the coefficient is
  \<open>Infinity\<close>, and the offset of the first vertex is \<open>NaN\<close>, not 0.
\<close>

theorem silent_waveform_counterexample:
  "max_values (peaks silent_drawer) = Num 0 \<and>
   coef_denominator silent_drawer = Num 0 \<and>
   coef silent_drawer 100 = js_div (Num 100) (Num 0) \<and>
   coef silent_drawer 100 = PosInf \<and>
   vertex_offset silent_drawer 100 0 = NaN \<and>
   vertex_offset silent_drawer 100 0 \<noteq> Num 0"
  by (simp add: silent_drawer_def max_values_def coef_denominator_def coef_def
      vertex_offset_def peak_at_def)

subsection \<open>The sampling loop computes the block's maximum\<close>

lemma finite_block_positions: "finite (block_positions n start e s)"
  by (simp add: block_positions_def)

lemma block_positions_empty: "e \<le> j \<Longrightarrow> block_positions n j e s = {}"
  by (auto simp add: block_positions_def)

lemma block_positions_step:
  assumes "0 < s" and "j < e"
  shows "block_positions n j e s =
           (if j < n then {j} else {}) \<union> block_positions n (j + s) e s"
proof (rule set_eqI)
  fix x
  show "x \<in> block_positions n j e s \<longleftrightarrow>
        x \<in> (if j < n then {j} else {}) \<union> block_positions n (j + s) e s"
  proof
    assume "x \<in> block_positions n j e s"
    then have x: "j \<le> x" "x < e" "x < n" "s dvd (x - j)"
      by (simp_all add: block_positions_def)
    show "x \<in> (if j < n then {j} else {}) \<union> block_positions n (j + s) e s"
    proof (cases "x = j")
      case True
      with x show ?thesis by simp
    next
      case False
      with x have pos: "0 < x - j" by simp
      with x(4) have "s \<le> x - j" by (simp add: dvd_imp_le)
      with x(1) have ge: "j + s \<le> x" by linarith
      from dvd_diff_nat[OF x(4) dvd_refl[of s]] have "s dvd (x - (j + s))" by simp
      with ge x show ?thesis by (simp add: block_positions_def)
    qed
  next
    assume "x \<in> (if j < n then {j} else {}) \<union> block_positions n (j + s) e s"
    then consider "x = j" "j < n" | "x \<in> block_positions n (j + s) e s"
      by (auto split: if_splits)
    then show "x \<in> block_positions n j e s"
    proof cases
      case 1
      with assms show ?thesis by (simp add: block_positions_def)
    next
      case 2
      then have x: "j + s \<le> x" "x < e" "x < n" "s dvd (x - (j + s))"
        by (simp_all add: block_positions_def)
      from x(1) have "x - j = (x - (j + s)) + s" by simp
      with x(4) have "s dvd (x - j)" by simp
      with x show ?thesis by (simp add: block_positions_def)
    qed
  qed
qed

lemma sampleLoop_peak:
  assumes "0 < s"
  shows "sampleLoop chan j e s pk =
           Some (Max (insert pk ((\<lambda>j. \<bar>chan ! j\<bar>) ` block_positions (length chan) j e s)))"
proof (induction "e - j" arbitrary: j pk rule: less_induct)
  case less
  show ?case
  proof (cases "j < e")
    case False
    then show ?thesis
      by (subst sampleLoop.simps) (simp add: block_positions_empty)
  next
    case True
    let ?B = "block_positions (length chan) (j + s) e s"
    let ?f = "\<lambda>j. \<bar>chan ! j\<bar>"
    let ?pk = "if j < length chan \<and> \<bar>chan ! j\<bar> > pk then \<bar>chan ! j\<bar> else pk"
    from True assms have "e - (j + s) < e - j" by simp
    then have IH: "sampleLoop chan (j + s) e s ?pk = Some (Max (insert ?pk (?f ` ?B)))"
      by (rule less)
    have fin: "finite (?f ` ?B)"
      by (simp add: finite_block_positions)
    have "Max (insert pk (?f ` block_positions (length chan) j e s)) = Max (insert ?pk (?f ` ?B))"
    proof (cases "j < length chan")
      case False
      with True assms show ?thesis
        by (simp add: block_positions_step)
    next
      case inr: True
      with True assms
      have "insert pk (?f ` block_positions (length chan) j e s)
              = insert pk (insert (?f j) (?f ` ?B))"
        by (simp add: block_positions_step)
      then have "Max (insert pk (?f ` block_positions (length chan) j e s))
              = max pk (max (?f j) (Max (insert (?f j) (?f ` ?B))))"
        using fin by simp
      also have "\<dots> = max (max pk (?f j)) (Max (insert (max pk (?f j)) (?f ` ?B)))"
        using fin by (cases "?f ` ?B = {}") (auto simp add: max_def)
      also have "\<dots> = Max (insert (max pk (?f j)) (?f ` ?B))"
        using fin by (cases "?f ` ?B = {}") (auto simp add: max_def)
      also from inr have "max pk (?f j) = ?pk"
        by (simp add: max_def)
      finally show ?thesis .
    qed
    with IH True show ?thesis
      by (subst sampleLoop.simps) simp
  qed
qed

lemma sampleLoop_channel_block_peak:
  "0 < s \<Longrightarrow> sampleLoop chan start e s 0 = Some (channel_block_peak chan start e s)"
  by (simp add: sampleLoop_peak channel_block_peak_def)

subsection \<open>The loops over channels, pixel columns and chunks\<close>

lemma channelLoop_foldl:
  assumes "0 < s"
  shows "channelLoop ops buf i sz s cs peak =
           Some (foldl (\<lambda>peak c.
                    fadd ops peak
                      (fdiv ops
                         (channel_block_peak (channelData buf ! c) (i * sz) (i * sz + sz) s)
                         (real (numberOfChannels buf))))
                  peak cs)"
  using assms
  by (induction cs arbitrary: peak) (simp_all add: Let_def sampleLoop_channel_block_peak)

lemma channelLoop_float_mean:
  assumes "0 < s"
  shows "\<exists>peak. channelLoop ops buf i sz s [0..<numberOfChannels buf] 0 = Some peak \<and>
                fround ops peak = float_mean ops buf sz s i"
proof -
  let ?F = "\<lambda>peak chan.
              fadd ops peak
                (fdiv ops (channel_block_peak chan (i * sz) (i * sz + sz) s)
                   (real (numberOfChannels buf)))"
  have "foldl (\<lambda>peak c. ?F peak (channelData buf ! c)) 0 [0..<numberOfChannels buf]
          = foldl ?F 0 (map (\<lambda>c. channelData buf ! c) [0..<length (channelData buf)])"
    by (simp add: numberOfChannels_def foldl_map)
  also have "\<dots> = foldl ?F 0 (channelData buf)"
    by (simp only: map_nth)
  finally have "foldl (\<lambda>peak c. ?F peak (channelData buf ! c)) 0 [0..<numberOfChannels buf]
          = foldl ?F 0 (channelData buf)" .
  with assms show ?thesis
    by (simp add: channelLoop_foldl float_mean_def)
qed

lemma pixelLoop_store:
  "0 < s \<Longrightarrow> pixelLoop ops buf sz s cols ps = Some (store_means ops buf sz s cols ps)"
proof (induction cols arbitrary: ps)
  case Nil
  then show ?case by (simp add: store_means_def)
next
  case (Cons i cols)
  from Cons.prems obtain peak where
    "channelLoop ops buf i sz s [0..<numberOfChannels buf] 0 = Some peak"
    "fround ops peak = float_mean ops buf sz s i"
    using channelLoop_float_mean by blast
  with Cons show ?case
    by (simp add: store_means_def)
qed

lemma store_means_append:
  "store_means ops buf sz s (xs @ ys) ps
     = store_means ops buf sz s ys (store_means ops buf sz s xs ps)"
  by (simp add: store_means_def)

lemma processChunk_store:
  "0 < s \<Longrightarrow> cp \<le> w \<Longrightarrow>
     processChunk ops buf w sz s cp ps = Some (store_means ops buf sz s [cp..<w] ps)"
proof (induction ops buf w sz s cp ps rule: processChunk.induct)
  case (1 ops buf w sz s cp ps)
  let ?e = "min (cp + 300) w"
  from "1.prems"(1)
  have pl: "pixelLoop ops buf sz s [cp..<?e] ps = Some (store_means ops buf sz s [cp..<?e] ps)"
    by (rule pixelLoop_store)
  show ?case
  proof (cases "?e < w")
    case False
    with "1.prems" have "?e = w" by simp
    with pl False show ?thesis
      by (subst processChunk.simps) (simp add: Let_def)
  next
    case True
    then have lt: "cp + 300 < w" by simp
    then have e: "?e = cp + 300" by simp
    have ih: "processChunk ops buf w sz s ?e (store_means ops buf sz s [cp..<?e] ps)
            = Some (store_means ops buf sz s [?e..<w] (store_means ops buf sz s [cp..<?e] ps))"
      using True pl "1.prems"(1) by (intro "1.IH") simp_all
    have rec: "processChunk ops buf w sz s (cp + 300)
                 (store_means ops buf sz s [cp..<cp + 300] ps)
            = Some (store_means ops buf sz s [cp..<w] ps)"
    proof -
      have "[cp..<cp + 300 + (w - (cp + 300))]
              = [cp..<cp + 300] @ [cp + 300..<cp + 300 + (w - (cp + 300))]"
        by (rule upt_add_eq_append) simp
      moreover from lt have "cp + 300 + (w - (cp + 300)) = w" by simp
      ultimately have "[cp..<w] = [cp..<cp + 300] @ [cp + 300..<w]" by simp
      then have "store_means ops buf sz s [cp..<w] ps
                  = store_means ops buf sz s [cp + 300..<w]
                      (store_means ops buf sz s [cp..<cp + 300] ps)"
        by (simp only: store_means_append)
      with ih show ?thesis unfolding e by simp
    qed
    from pl have pl': "pixelLoop ops buf sz s [cp..<cp + 300] ps
                        = Some (store_means ops buf sz s [cp..<cp + 300] ps)"
      unfolding e .
    have "processChunk ops buf w sz s cp ps
            = processChunk ops buf w sz s (cp + 300)
                (store_means ops buf sz s [cp..<cp + 300] ps)"
      using lt pl' by (subst processChunk.simps) (simp add: Let_def e)
    with rec show ?thesis by simp
  qed
qed

lemma length_store_means: "length (store_means ops buf sz s cols ps) = length ps"
  unfolding store_means_def by (induction cols arbitrary: ps) simp_all

lemma nth_store_means_upt:
  "b \<le> length ps \<Longrightarrow> k < length ps \<Longrightarrow>
     store_means ops buf sz s [a..<b] ps ! k
       = (if a \<le> k \<and> k < b then float_mean ops buf sz s k else ps ! k)"
proof (induction b)
  case 0
  then show ?case by (simp add: store_means_def)
next
  case (Suc b)
  show ?case
  proof (cases "a \<le> b")
    case False
    then show ?thesis by (simp add: store_means_def)
  next
    case True
    then have "store_means ops buf sz s [a..<Suc b] ps
                 = (store_means ops buf sz s [a..<b] ps)[b := float_mean ops buf sz s b]"
      by (simp add: store_means_def)
    with Suc True show ?thesis
      by (auto simp add: length_store_means nth_list_update)
  qed
qed

lemma store_means_all:
  "store_means ops buf sz s [0..<w] (replicate w 0) = map (float_mean ops buf sz s) [0..<w]"
  by (rule nth_equalityI) (simp_all add: length_store_means nth_store_means_upt)

subsection \<open>Without rounding the accumulated value is the arithmetic mean\<close>

lemma foldl_add_sum_list: "foldl (\<lambda>a x. a + f x) a0 xs = (a0::real) + (\<Sum>x\<leftarrow>xs. f x)"
  by (induction xs arbitrary: a0) simp_all

lemma sum_list_divide: "(\<Sum>x\<leftarrow>xs. f x / (c::real)) = (\<Sum>x\<leftarrow>xs. f x) / c"
  by (induction xs) (simp_all add: add_divide_distrib)

lemma float_mean_exact: "float_mean exact_ops buf sz s i = mean_channel_peak buf sz s i"
  by (simp add: float_mean_def exact_ops_def mean_channel_peak_def foldl_add_sum_list
      sum_list_divide)

text \<open>
  C6, as the code has it. Whenever the stride of the JavaScript extractor is positive (a
  stride passed to \<open>init\<close>, or blocks of at least 10 samples), the extraction returns an
  envelope of the display width. Its entry \<open>i\<close> is formed from the maxima, one per channel,
  of the absolute samples among the positions of block \<open>i\<close> (of \<open>ceil(length / W)\<close>
  samples) that the stride visits: each maximum is divided by the number of channels, the
  quotients are added up in doubles channel by channel, starting from 0, and the total is
  rounded to float32. With operations that do not round, this value is the arithmetic mean
  of the per-channel maxima.
\<close>

theorem envelope_is_mean_of_channel_peaks:
  assumes "0 < effectiveStep sampleStep0 (blockSampleSize buf w)"
  shows "getPeaksChunked ops buf w sampleStep0 =
           Some (map (float_mean ops buf (blockSampleSize buf w)
                        (effectiveStep sampleStep0 (blockSampleSize buf w))) [0..<w]) \<and>
         float_mean ops buf sz st k =
           fround ops
             (foldl (\<lambda>peak chan.
                       fadd ops peak
                         (fdiv ops (channel_block_peak chan (k * sz) (k * sz + sz) st)
                            (real (numberOfChannels buf))))
                0 (channelData buf)) \<and>
         float_mean exact_ops buf sz st k = mean_channel_peak buf sz st k"
proof -
  have "processChunk ops buf w (blockSampleSize buf w)
          (effectiveStep sampleStep0 (blockSampleSize buf w)) 0 (replicate w 0)
        = Some (store_means ops buf (blockSampleSize buf w)
                  (effectiveStep sampleStep0 (blockSampleSize buf w)) [0..<w] (replicate w 0))"
    using assms by (intro processChunk_store) simp_all
  then have "getPeaksChunked ops buf w sampleStep0 =
           Some (map (float_mean ops buf (blockSampleSize buf w)
                        (effectiveStep sampleStep0 (blockSampleSize buf w))) [0..<w])"
    by (simp add: getPeaksChunked_def Let_def store_means_all)
  then show ?thesis
    by (simp add: float_mean_exact) (simp add: float_mean_def)
qed

lemma stereo_block: "blockSampleSize stereo_buffer 2 = 2"
  by (simp add: blockSampleSize_def stereo_buffer_def)

lemma stereo_means:
  "mean_channel_peak stereo_buffer 2 1 0 = 1 / 2"
  "mean_channel_peak stereo_buffer 2 1 1 = 1 / 4"
  "mean_channel_peak stereo_buffer 2 2 0 = 1 / 2"
  by code_simp+

text \<open>
  Two channels of four samples, two columns, stride 1: the blocks hold two samples each,
  and the envelope is \<open>[(1 + 0) / 2, (0 + 1/2) / 2]\<close>. All the values involved are
  representable, so no operation rounds.
\<close>

theorem envelope_is_mean_of_channel_peaks_witness:
  "0 < effectiveStep (Some 1) (blockSampleSize stereo_buffer 2) \<and>
   getPeaksChunked exact_ops stereo_buffer 2 (Some 1) =
     Some (map (float_mean exact_ops stereo_buffer (blockSampleSize stereo_buffer 2)
                  (effectiveStep (Some 1) (blockSampleSize stereo_buffer 2))) [0..<2]) \<and>
   map (float_mean exact_ops stereo_buffer (blockSampleSize stereo_buffer 2)
          (effectiveStep (Some 1) (blockSampleSize stereo_buffer 2))) [0..<2] = [1 / 2, 1 / 4]"
proof -
  have h: "0 < effectiveStep (Some 1) (blockSampleSize stereo_buffer 2)"
    by (simp add: effectiveStep_def)
  have u: "[0..<2] = [0, Suc 0]"
    by (simp add: upt_rec)
  have v: "map (float_mean exact_ops stereo_buffer (blockSampleSize stereo_buffer 2)
          (effectiveStep (Some 1) (blockSampleSize stereo_buffer 2))) [0..<2] = [1 / 2, 1 / 4]"
    unfolding u using stereo_means
    by (simp add: stereo_block effectiveStep_def float_mean_exact)
  from envelope_is_mean_of_channel_peaks[OF h, of exact_ops] h v show ?thesis by blast
qed

text \<open>
  On the same buffer the TypeScript extractor returns \<open>[3/4, 0]\<close>: the mean absolute value
  of channel 0 in each block. The mean of the two channels' block maxima is \<open>1/2\<close> in
  block 0 (with stride 1 and with stride 2) and \<open>1/4\<close> in block 1, and that is what the
  JavaScript extractor returns. All the values involved are representable, so no operation
  rounds.
\<close>

theorem envelope_ts_counterexample:
  "getPeaksAsync_ts exact_ops (Some stereo_buffer) 2 = Inr (Some [Num (3 / 4), Num 0]) \<and>
   getPeaksChunked exact_ops stereo_buffer 2 (Some 1) = Some [1 / 2, 1 / 4] \<and>
   blockSampleSize stereo_buffer 2 = 2 \<and>
   mean_channel_peak stereo_buffer 2 1 0 = 1 / 2 \<and>
   mean_channel_peak stereo_buffer 2 2 0 = 1 / 2 \<and>
   mean_channel_peak stereo_buffer 2 1 1 = 1 / 4 \<and>
   Num (3 / 4) \<noteq> Num (1 / 2)"
proof -
  have t: "getPeaksAsync_ts exact_ops (Some stereo_buffer) 2 = Inr (Some [Num (3 / 4), Num 0])"
    by code_simp
  have j: "getPeaksChunked exact_ops stereo_buffer 2 (Some 1) = Some [1 / 2, 1 / 4]"
    by code_simp
  from t j stereo_block stereo_means show ?thesis by simp
qed

end
